theory Spec2Isabelle
  imports Main "HOL-Library.Word"
begin

unbundle bit_operations_syntax

section \<open>Errors and Python values\<close>

text \<open>
  Every exception the modelled functions can raise is a value of \<open>error\<close>: the four
  structured errors of \<open>globaleaks.rest.errors\<close>, the exceptions of the ORM query
  (\<open>.one()\<close>) and the built-in Python exceptions that the code lets propagate.
\<close>

datatype error =
    InvalidAuthentication
  | TorNetworkRequired
  | AccessLocationInvalid
  | InputValidationError string
  | ValueError
  | KeyError
  | NoResultFound
  | MultipleResultsFound
  | UnboundLocalError
  | OverflowError
  | UnicodeEncodeError

text \<open>The decimal rendering of \<open>"%d" % n\<close> and of \<open>str(n)\<close>.\<close>

definition digit_char :: "nat \<Rightarrow> char" where
  "digit_char d = ''0123456789'' ! d"

fun show_nat :: "nat \<Rightarrow> string" where
  "show_nat n = (if n < 10 then [digit_char n] else show_nat (n div 10) @ [digit_char (n mod 10)])"

declare show_nat.simps [simp del]

definition show_int :: "int \<Rightarrow> string" where
  "show_int i = (if i < 0 then CHR ''-'' # show_nat (nat (- i)) else show_nat (nat i))"

text \<open>Reading a decimal numeral back, to state what \<open>show_nat\<close> prints.\<close>

definition digit_val :: "char \<Rightarrow> nat" where
  "digit_val c = of_char c - 48"

definition read_nat :: "string \<Rightarrow> nat" where
  "read_nat s = foldl (\<lambda>acc c. 10 * acc + digit_val c) 0 s"


section \<open>Login delay (handlers/authentication.py)\<close>

text \<open>
  \<open>SystemRandom().randint(a, b)\<close> draws an integer of \<open>[a, b]\<close> and raises ValueError on
  an empty range. The draw is not a function of the arguments, so the model gives the
  set of possible outcomes.
\<close>

definition randint :: "int \<Rightarrow> int \<Rightarrow> (error + int) set" where
  "randint a b = (if a \<le> b then Inr ` {a..b} else {Inl ValueError})"

text \<open>
  \<open>random_login_delay\<close> reads \<open>Settings.failed_login_attempts\<close>; the counter is the
  argument here.
\<close>

definition random_login_delay :: "int \<Rightarrow> (error + int) set" where
  "random_login_delay failed_attempts =
     (if failed_attempts \<ge> 5 then
        (let n = failed_attempts * failed_attempts;
             min_sleep = (if failed_attempts < 42 then failed_attempts else 42);
             max_sleep = (if n < 42 then n else 42)
         in randint min_sleep max_sleep)
      else {Inr 0})"


section \<open>Byte counts (utils/utility.py)\<close>

text \<open>
  The argument of \<open>bytes_to_pretty_str\<close> is a \<open>str\<close> or an integer. The built-in
  \<open>int(s)\<close> is the parameter \<open>int_of_str\<close> (\<open>None\<close> where it raises ValueError).
\<close>

datatype byte_count = PyStr string | PyInt int

text \<open>
  \<open>b / k\<close> on two integers is Python 3's true division: the quotient rounded to the
  nearest double, ties to even, and OverflowError when that is beyond the doubles. A
  double is given here by its significand \<open>m\<close> (at most 53 bits) and exponent \<open>e\<close>, for
  the value \<open>m * 2 ^ e\<close>. The model is for a positive divisor of at most \<open>10 ^ 9\<close> and a
  dividend that is zero or at least one, as in \<open>bytes_to_pretty_str\<close>, where the
  quotient is never in the subnormal range.
\<close>

fun bit_length :: "nat \<Rightarrow> nat" where
  "bit_length n = (if n = 0 then 0 else Suc (bit_length (n div 2)))"

declare bit_length.simps [simp del]

text \<open>The integer nearest to \<open>a / d\<close>, the even one of two that are equally near.\<close>

definition round_half_even :: "nat \<Rightarrow> nat \<Rightarrow> nat" where
  "round_half_even a d =
     (let q = a div d; r = a mod d
      in if 2 * r < d then q else if d < 2 * r then q + 1 else if even q then q else q + 1)"

text \<open>The integer \<open>l\<close> with \<open>2 ^ l \<le> a / k < 2 ^ (l + 1)\<close>, for positive \<open>a\<close> and \<open>k\<close>.\<close>

definition quotient_log2 :: "nat \<Rightarrow> nat \<Rightarrow> int" where
  "quotient_log2 a k =
     (let l = int (bit_length a) - int (bit_length k)
      in if (if 0 \<le> l then k * 2 ^ nat l \<le> a else k \<le> a * 2 ^ nat (- l)) then l else l - 1)"

definition true_divide :: "nat \<Rightarrow> nat \<Rightarrow> error + nat \<times> int" where
  "true_divide a k =
     (if a = 0 then Inr (0, 0)
      else
        (let e = quotient_log2 a k - 52;
             m = (if 0 \<le> e then round_half_even a (k * 2 ^ nat e)
                  else round_half_even (a * 2 ^ nat (- e)) k)
         in if 971 < e \<or> (e = 971 \<and> m = 2 ^ 53) then Inl OverflowError else Inr (m, e)))"

text \<open>\<open>int(x)\<close> of a double that is not negative: its integer part.\<close>

definition int_of_double :: "nat \<times> int \<Rightarrow> nat" where
  "int_of_double d =
     (case d of (m, e) \<Rightarrow> if 0 \<le> e then m * 2 ^ nat e else m div 2 ^ nat (- e))"

text \<open>
  \<open>int(b / k)\<close> for a positive constant \<open>k\<close>: the double quotient, truncated towards
  zero; a negative \<open>b\<close> gives the negated quotient of its absolute value.
\<close>

definition int_quot :: "int \<Rightarrow> int \<Rightarrow> error + int" where
  "int_quot b k =
     (case true_divide (nat \<bar>b\<bar>) (nat k) of
        Inl e \<Rightarrow> Inl e
      | Inr d \<Rightarrow> Inr (if b < 0 then - int (int_of_double d) else int (int_of_double d)))"

definition bytes_to_pretty_str :: "(string \<Rightarrow> int option) \<Rightarrow> byte_count \<Rightarrow> error + string" where
  "bytes_to_pretty_str int_of_str arg =
     (case (case arg of PyStr s \<Rightarrow> int_of_str s | PyInt i \<Rightarrow> Some i) of
        None \<Rightarrow> Inl ValueError
      | Some b \<Rightarrow>
          if b \<ge> 1000000000 then
            (case int_quot b 1000000000 of
               Inl e \<Rightarrow> Inl e
             | Inr q \<Rightarrow> Inr (show_int q @ ''GB''))
          else if b \<ge> 1000000 then
            (case int_quot b 1000000 of
               Inl e \<Rightarrow> Inl e
             | Inr q \<Rightarrow> Inr (show_int q @ ''MB''))
          else
            (case int_quot b 1000 of
               Inl e \<Rightarrow> Inl e
             | Inr q \<Rightarrow> Inr (show_int q @ ''KB'')))"


text \<open>
  An instance of \<open>int_of_str\<close> for the examples: \<open>int(s)\<close> on an optional sign followed
  by ASCII digits, ValueError on anything else.
\<close>

definition is_digit :: "char \<Rightarrow> bool" where
  "is_digit c = (c \<in> set ''0123456789'')"

definition dec_nat_of_str :: "string \<Rightarrow> nat option" where
  "dec_nat_of_str s = (if s \<noteq> [] \<and> list_all is_digit s then Some (read_nat s) else None)"

definition dec_int_of_str :: "string \<Rightarrow> int option" where
  "dec_int_of_str s =
     (case s of
        [] \<Rightarrow> None
      | c # cs \<Rightarrow>
          if c = CHR ''-'' then map_option (\<lambda>n. - int n) (dec_nat_of_str cs)
          else if c = CHR ''+'' then map_option int (dec_nat_of_str cs)
          else map_option int (dec_nat_of_str s))"


section \<open>API response cache (rest/apicache.py)\<close>

text \<open>
  A Python \<open>str\<close> is a list of code points, a \<open>bytes\<close> value a list of octets. The data
  handed to the cache is one or the other. \<open>str.encode()\<close> (UTF-8) and the gzip
  compressor are library code: they are the parameters \<open>encode\<close> and \<open>gz\<close>. The
  encoder is partial: it is \<open>None\<close> where \<open>str.encode()\<close> raises UnicodeEncodeError, as
  it does on a text with a lone surrogate.
\<close>

type_synonym unicode = "nat list"

type_synonym bytes = "8 word list"

datatype payload = Text unicode | Bytes bytes

definition gzipdata ::
  "(bytes \<Rightarrow> bytes) \<Rightarrow> (unicode \<Rightarrow> bytes option) \<Rightarrow> payload \<Rightarrow> error + bytes" where
  "gzipdata gz encode data =
     (case (case data of Text t \<Rightarrow> encode t | Bytes b \<Rightarrow> Some b) of
        None \<Rightarrow> Inl UnicodeEncodeError
      | Some data \<Rightarrow> Inr (gz data))"

text \<open>
  \<open>memory_cache_dict\<close>: tenant id, then resource path, then language, to the pair of
  content type and compressed body.
\<close>

type_synonym entry = "string \<times> bytes"

type_synonym cache = "int \<rightharpoonup> (string \<rightharpoonup> (string \<rightharpoonup> entry))"

definition ApiCache_get :: "cache \<Rightarrow> int \<Rightarrow> string \<Rightarrow> string \<Rightarrow> entry option" where
  "ApiCache_get memory_cache_dict tid resource language =
     (case memory_cache_dict tid of
        None \<Rightarrow> None
      | Some resources \<Rightarrow>
          (case resources resource of
             None \<Rightarrow> None
           | Some languages \<Rightarrow> languages language))"

text \<open>
  \<open>set\<close> compresses first: when \<open>gzipdata\<close> raises, nothing has been stored yet and the
  dictionary is as it was.
\<close>

definition ApiCache_set ::
  "(bytes \<Rightarrow> bytes) \<Rightarrow> (unicode \<Rightarrow> bytes option) \<Rightarrow> cache \<Rightarrow> int \<Rightarrow> string \<Rightarrow> string \<Rightarrow> string
    \<Rightarrow> payload \<Rightarrow> error + entry \<times> cache" where
  "ApiCache_set gz encode memory_cache_dict tid resource language content_type data =
     (case gzipdata gz encode data of
        Inl e \<Rightarrow> Inl e
      | Inr data \<Rightarrow>
          (let resources = (case memory_cache_dict tid of None \<Rightarrow> Map.empty | Some r \<Rightarrow> r);
               languages = (case resources resource of None \<Rightarrow> Map.empty | Some l \<Rightarrow> l);
               entry = (content_type, data)
           in Inr (entry,
                memory_cache_dict(tid \<mapsto> resources(resource \<mapsto> languages(language \<mapsto> entry))))))"

definition ApiCache_invalidate :: "cache \<Rightarrow> int option \<Rightarrow> cache" where
  "ApiCache_invalidate memory_cache_dict tid =
     (case tid of
        Some t \<Rightarrow> memory_cache_dict(t := None)
      | None \<Rightarrow> Map.empty)"

text \<open>
  A history of the cache: the calls of \<open>set\<close> and \<open>invalidate\<close> made since the process
  started with the empty dictionary. A call of \<open>set\<close> that raises leaves the dictionary
  as it was.
\<close>

datatype cache_call =
    CallSet int string string string payload
  | CallInvalidate "int option"

fun cache_step ::
  "(bytes \<Rightarrow> bytes) \<Rightarrow> (unicode \<Rightarrow> bytes option) \<Rightarrow> cache \<Rightarrow> cache_call \<Rightarrow> cache" where
  "cache_step gz encode c (CallSet tid resource language content_type data) =
     (case ApiCache_set gz encode c tid resource language content_type data of
        Inl e \<Rightarrow> c
      | Inr (entry, c') \<Rightarrow> c')"
| "cache_step gz encode c (CallInvalidate tid) = ApiCache_invalidate c tid"

definition cache_after ::
  "(bytes \<Rightarrow> bytes) \<Rightarrow> (unicode \<Rightarrow> bytes option) \<Rightarrow> cache_call list \<Rightarrow> cache" where
  "cache_after gz encode calls = foldl (cache_step gz encode) Map.empty calls"

fun set_key :: "cache_call \<Rightarrow> (int \<times> string \<times> string) option" where
  "set_key (CallSet tid resource language content_type data) = Some (tid, resource, language)"
| "set_key (CallInvalidate tid) = None"

text \<open>
  For the examples: the UTF-8 encoder, which has no encoding for a surrogate code point
  (\<open>D800\<close> to \<open>DFFF\<close>) or for a number that is no code point, and a codec that frames
  the data with the two gzip magic octets (any compressor with a decompressor will do).
\<close>

definition utf8_code_point :: "nat \<Rightarrow> bytes" where
  "utf8_code_point cp =
     (if cp < 128 then [of_nat cp]
      else if cp < 2048 then [of_nat (192 + cp div 64), of_nat (128 + cp mod 64)]
      else if cp < 65536 then
        [of_nat (224 + cp div 4096), of_nat (128 + cp div 64 mod 64), of_nat (128 + cp mod 64)]
      else
        [of_nat (240 + cp div 262144), of_nat (128 + cp div 4096 mod 64),
         of_nat (128 + cp div 64 mod 64), of_nat (128 + cp mod 64)])"

definition encodable :: "nat \<Rightarrow> bool" where
  "encodable cp = (cp < 1114112 \<and> (cp < 55296 \<or> 57343 < cp))"

definition utf8_encode :: "unicode \<Rightarrow> bytes option" where
  "utf8_encode t = (if list_all encodable t then Some (concat (map utf8_code_point t)) else None)"

definition frame_gzip :: "bytes \<Rightarrow> bytes" where
  "frame_gzip b = 31 # 139 # b"

definition frame_gunzip :: "bytes \<Rightarrow> bytes" where
  "frame_gunzip b = drop 2 b"


section \<open>Shutdown of the service (backend.py)\<close>

text \<open>
  What \<open>Service.shutdown\<close> touches: the flag \<open>self._shutdown\<close>, the ORM thread pool
  (counted by how often \<open>orm_tp.stop()\<close> ran) and the deferred \<open>d\<close> (counted by how
  often \<open>d.callback(None)\<close> ran).
\<close>

record service =
  shutdown_flag :: bool
  orm_tp_stops :: nat
  d_callbacks :: nat

text \<open>The inner function \<open>_shutdown(_)\<close>: its argument is ignored.\<close>

definition shutdown_callback :: "service \<Rightarrow> service" where
  "shutdown_callback s =
     (if shutdown_flag s then s
      else s\<lparr>shutdown_flag := True,
             orm_tp_stops := orm_tp_stops s + 1,
             d_callbacks := d_callbacks s + 1\<rparr>)"

text \<open>
  \<open>shutdown\<close> registers the callback twice: with \<open>reactor.callLater(30, ...)\<close> and
  with \<open>stop_jobs().addBoth(...)\<close>. The reactor then calls it for each event, in the
  order the events occur.
\<close>

datatype shutdown_event = TimerExpired | JobsStopped

fun on_event :: "service \<Rightarrow> shutdown_event \<Rightarrow> service" where
  "on_event s TimerExpired = shutdown_callback s"
| "on_event s JobsStopped = shutdown_callback s"

definition shutdown_run :: "service \<Rightarrow> shutdown_event list \<Rightarrow> service" where
  "shutdown_run s events = foldl on_event s events"


section \<open>IP addresses and networks (utils/utility.py)\<close>

text \<open>
  The objects of Python's \<open>ipaddress\<close> module: an address is its version and its
  integer, a network its network address and prefix length.
\<close>

datatype ip_address = IPv4Address "32 word" | IPv6Address "128 word"

datatype ip_network = IPv4Network "32 word" nat | IPv6Network "128 word" nat

fun max_prefixlen :: "ip_address \<Rightarrow> nat" where
  "max_prefixlen (IPv4Address a) = 32"
| "max_prefixlen (IPv6Address a) = 128"

text \<open>\<open>is_loopback\<close>: an IPv4 address of \<open>127.0.0.0/8\<close>, the IPv6 address \<open>::1\<close>.\<close>

fun is_loopback :: "ip_address \<Rightarrow> bool" where
  "is_loopback (IPv4Address a) = (drop_bit 24 a = 127)"
| "is_loopback (IPv6Address a) = (a = 1)"

text \<open>
  \<open>address in network\<close>: false across versions, otherwise the address masked with the
  netmask is the network address.
\<close>

fun in_network :: "ip_address \<Rightarrow> ip_network \<Rightarrow> bool" where
  "in_network (IPv4Address a) (IPv4Network n p) = (a AND NOT (mask (32 - p)) = n)"
| "in_network (IPv6Address a) (IPv6Network n p) = (a AND NOT (mask (128 - p)) = n)"
| "in_network (IPv4Address a) (IPv6Network n p) = False"
| "in_network (IPv6Address a) (IPv4Network n p) = False"

text \<open>\<open>str.split(sep)\<close>: the empty string gives one empty field.\<close>

fun split_on :: "char \<Rightarrow> string \<Rightarrow> string list" where
  "split_on sep [] = [[]]"
| "split_on sep (c # cs) =
     (if c = sep then [] # split_on sep cs
      else (case split_on sep cs of
              [] \<Rightarrow> [[c]]
            | x # xs \<Rightarrow> (c # x) # xs))"

definition unable_to_parse :: "string \<Rightarrow> error" where
  "unable_to_parse ip_network_str =
     InputValidationError (''Unable to parse IP address: '' @ ip_network_str)"

text \<open>
  The loop of \<open>parse_csv_ip_ranges_to_ip_networks\<close> over the entries, with the list
  built so far. The two library parsers are parameters: \<open>ip_address\<close> is
  \<open>ipaddress.ip_address\<close> and \<open>ip_network\<close> is \<open>ipaddress.ip_network\<close> (strict, as in both
  calls), each \<open>None\<close> where the library raises ValueError.
\<close>

fun parse_entries ::
  "(string \<Rightarrow> ip_address option) \<Rightarrow> (string \<Rightarrow> ip_network option) \<Rightarrow> string list
    \<Rightarrow> ip_network list \<Rightarrow> error + ip_network list" where
  "parse_entries ip_address ip_network [] ip_network_list = Inr ip_network_list"
| "parse_entries ip_address ip_network (ip_network_str # rest) ip_network_list =
     (if CHR ''/'' \<in> set ip_network_str then
        (case ip_network ip_network_str of
           None \<Rightarrow> Inl (unable_to_parse ip_network_str)
         | Some ip_net_obj \<Rightarrow>
             parse_entries ip_address ip_network rest (ip_network_list @ [ip_net_obj]))
      else
        (case ip_address ip_network_str of
           None \<Rightarrow> Inl (unable_to_parse ip_network_str)
         | Some ip_addr_obj \<Rightarrow>
             (let cidr_len = max_prefixlen ip_addr_obj in
              case ip_network (ip_network_str @ ''/'' @ show_nat cidr_len) of
                None \<Rightarrow> Inl (unable_to_parse ip_network_str)
              | Some net \<Rightarrow>
                  parse_entries ip_address ip_network rest (ip_network_list @ [net]))))"

definition parse_csv_ip_ranges_to_ip_networks ::
  "(string \<Rightarrow> ip_address option) \<Rightarrow> (string \<Rightarrow> ip_network option) \<Rightarrow> string
    \<Rightarrow> error + ip_network list" where
  "parse_csv_ip_ranges_to_ip_networks ip_address ip_network ip_str =
     parse_entries ip_address ip_network (split_on CHR '','' ip_str) []"

text \<open>
  What the specification says of one entry: an entry with a slash is the strict CIDR
  network it denotes; a bare address is the host network of its version, \<open>/32\<close> for
  IPv4 and \<open>/128\<close> for IPv6; \<open>None\<close> when the entry is neither.
\<close>

definition spec_entry_network ::
  "(string \<Rightarrow> ip_address option) \<Rightarrow> (string \<Rightarrow> ip_network option) \<Rightarrow> string
    \<Rightarrow> ip_network option" where
  "spec_entry_network ip_address ip_network entry =
     (if CHR ''/'' \<in> set entry then ip_network entry
      else (case ip_address entry of
              None \<Rightarrow> None
            | Some (IPv4Address a) \<Rightarrow> ip_network (entry @ ''/32'')
            | Some (IPv6Address a) \<Rightarrow> ip_network (entry @ ''/128'')))"

text \<open>
  An instance of the two parsers for the examples: the library on dotted-quad IPv4
  literals with a decimal prefix length (octets of one to three digits without a leading
  zero, at most 255; a prefix of at most 32; no host bits set). Anything else, IPv6
  literals included, is outside this instance.
\<close>

definition ipv4_octet :: "string \<Rightarrow> nat option" where
  "ipv4_octet s =
     (if s \<noteq> [] \<and> list_all is_digit s \<and> length s \<le> 3 \<and> (length s = 1 \<or> hd s \<noteq> CHR ''0'')
         \<and> read_nat s \<le> 255
      then Some (read_nat s) else None)"

definition ipv4_int :: "string \<Rightarrow> 32 word option" where
  "ipv4_int s =
     (case map ipv4_octet (split_on CHR ''.'' s) of
        [Some a, Some b, Some c, Some d] \<Rightarrow> Some (of_nat (((a * 256 + b) * 256 + c) * 256 + d))
      | _ \<Rightarrow> None)"

definition ipv4_prefix :: "string \<Rightarrow> nat option" where
  "ipv4_prefix s =
     (if s \<noteq> [] \<and> list_all is_digit s \<and> read_nat s \<le> 32 then Some (read_nat s) else None)"

definition ipv4_address :: "string \<Rightarrow> ip_address option" where
  "ipv4_address s = map_option IPv4Address (ipv4_int s)"

definition ipv4_network :: "string \<Rightarrow> ip_network option" where
  "ipv4_network s =
     (case split_on CHR ''/'' s of
        [a] \<Rightarrow> map_option (\<lambda>w. IPv4Network w 32) (ipv4_int a)
      | [a, p] \<Rightarrow>
          (case (ipv4_int a, ipv4_prefix p) of
             (Some w, Some n) \<Rightarrow> if w AND mask (32 - n) = 0 then Some (IPv4Network w n) else None
           | _ \<Rightarrow> None)
      | _ \<Rightarrow> None)"


section \<open>Authentication (handlers/authentication.py)\<close>

text \<open>
  The rows of the models the handlers query, with the columns they use. A role is one
  of the strings \<open>admin\<close>, \<open>receiver\<close>, \<open>custodian\<close> and \<open>whistleblower\<close>; \<open>u_id\<close>,
  \<open>wb_id\<close> and \<open>it_id\<close> are the \<open>id\<close> columns of User, WhistleblowerTip and
  InternalTip, \<open>wb_tid\<close> and \<open>it_tid\<close> their \<open>tid\<close> columns.
\<close>

datatype role = Admin | Receiver | Custodian | Whistleblower

record user =
  u_id :: string
  username :: string
  salt :: string
  password :: string
  state :: string
  role :: role
  password_change_needed :: bool
  last_login :: nat

record user_tenant =
  user_id :: string
  tenant_id :: int

record whistleblower_tip =
  wb_id :: string
  wb_tid :: int
  receipt_hash :: string

record internal_tip =
  it_id :: string
  it_tid :: int
  wb_last_access :: nat

text \<open>
  An entry of \<open>State.tenant_cache\<close>, with the keys the handlers read; the four
  \<open>https_<role>\<close> flags are read through \<open>https_flag\<close>, which is
  \<open>tenant['https_' + role]\<close>.
\<close>

record tenant =
  receipt_salt :: string
  https_admin :: bool
  https_receiver :: bool
  https_custodian :: bool
  https_whistleblower :: bool
  ip_filter_authenticated_enable :: bool
  ip_filter_authenticated :: string
  hostname :: string

fun https_flag :: "tenant \<Rightarrow> role \<Rightarrow> bool" where
  "https_flag t Admin = https_admin t"
| "https_flag t Receiver = https_receiver t"
| "https_flag t Custodian = https_custodian t"
| "https_flag t Whistleblower = https_whistleblower t"

record session =
  sess_id :: string
  sess_tid :: int
  sess_user_id :: string
  user_role :: role
  pcn :: bool

text \<open>
  The state the handlers read and write: the counter \<open>Settings.failed_login_attempts\<close>,
  \<open>State.tenant_cache\<close>, the tables of the database and the session store.
\<close>

record world =
  failed_login_attempts :: int
  tenant_cache :: "int \<rightharpoonup> tenant"
  users :: "user list"
  user_tenants :: "user_tenant list"
  whistleblower_tips :: "whistleblower_tip list"
  internal_tips :: "internal_tip list"
  sessions :: "string \<rightharpoonup> session"

text \<open>
  Modelled from the spec: \<open>Sessions.new\<close> of \<open>globaleaks.sessions\<close>, which is not among
  the sources. It creates a session for the tenant, subject, role and password-change
  flag under a fresh token, registers it and returns it. The fresh token is the
  argument \<open>token\<close>.
\<close>

definition Sessions_new :: "string \<Rightarrow> int \<Rightarrow> string \<Rightarrow> role \<Rightarrow> bool \<Rightarrow> world \<Rightarrow> session \<times> world" where
  "Sessions_new token tid subject_id subject_role change_needed w =
     (let s = \<lparr>sess_id = token, sess_tid = tid, sess_user_id = subject_id,
                user_role = subject_role, pcn = change_needed\<rparr>
      in (s, w\<lparr>sessions := (sessions w)(token \<mapsto> s)\<rparr>))"

text \<open>
  The query of \<open>login\<close>: the users with the given name that are not disabled and have a
  membership row for the tenant, each once.
\<close>

definition login_query :: "world \<Rightarrow> int \<Rightarrow> string \<Rightarrow> user list" where
  "login_query w tid uname =
     filter (\<lambda>u. username u = uname \<and> state u \<noteq> ''disabled'' \<and>
                 list_ex (\<lambda>ut. user_id ut = u_id u \<and> tenant_id ut = tid) (user_tenants w))
       (users w)"

text \<open>
  The loop \<open>for u in users\<close>: it does not stop at the first user whose password verifies,
  so the last one is kept. \<open>check_password\<close> is \<open>security.check_password\<close>, a parameter.
\<close>

fun select_user :: "(string \<Rightarrow> string \<Rightarrow> string \<Rightarrow> bool) \<Rightarrow> string \<Rightarrow> user list \<Rightarrow> user option \<Rightarrow> user option" where
  "select_user check_password pw [] found = found"
| "select_user check_password pw (u # us) found =
     select_user check_password pw us
       (if check_password pw (salt u) (password u) then Some u else found)"

text \<open>
  The location check of \<open>login\<close>, run when the tenant enables it: the configured list is
  parsed first, then the client address, then the flag \<open>success\<close> is computed.
\<close>

definition check_location ::
  "(string \<Rightarrow> ip_address option) \<Rightarrow> (string \<Rightarrow> ip_network option) \<Rightarrow> tenant \<Rightarrow> string
    \<Rightarrow> error + unit" where
  "check_location ip_address ip_network t client_ip =
     (case parse_csv_ip_ranges_to_ip_networks ip_address ip_network (ip_filter_authenticated t) of
        Inl e \<Rightarrow> Inl e
      | Inr ip_networks \<Rightarrow>
          (case ip_address client_ip of
             None \<Rightarrow> Inl ValueError
           | Some client_ip_obj \<Rightarrow>
               (let success = False;
                    success = (if is_loopback client_ip_obj then True else success);
                    success = foldl (\<lambda>success ip_net.
                                if in_network client_ip_obj ip_net then True else success)
                              success ip_networks
                in if success then Inr () else Inl AccessLocationInvalid)))"

text \<open>
  \<open>login\<close>. The function runs in a transaction: on an exception the database is as it
  was, and only the counter, which is not in the database, keeps its change. \<open>now\<close> is
  \<open>datetime_now()\<close>.
\<close>

definition login ::
  "(string \<Rightarrow> string \<Rightarrow> string \<Rightarrow> bool) \<Rightarrow> (string \<Rightarrow> ip_address option)
    \<Rightarrow> (string \<Rightarrow> ip_network option) \<Rightarrow> nat \<Rightarrow> string
    \<Rightarrow> world \<Rightarrow> int \<Rightarrow> string \<Rightarrow> string \<Rightarrow> bool \<Rightarrow> string \<Rightarrow> (error + session) \<times> world" where
  "login check_password ip_address ip_network now token w tid uname pw client_using_tor client_ip =
     (case select_user check_password pw (login_query w tid uname) None of
        None \<Rightarrow>
          (Inl InvalidAuthentication, w\<lparr>failed_login_attempts := failed_login_attempts w + 1\<rparr>)
      | Some u \<Rightarrow>
          (case (if client_using_tor then Inr ()
                 else (case tenant_cache w tid of
                         None \<Rightarrow> Inl KeyError
                       | Some t \<Rightarrow> if \<not> https_flag t (role u) then Inl TorNetworkRequired else Inr ())) of
             Inl e \<Rightarrow> (Inl e, w)
           | Inr _ \<Rightarrow>
               (case tenant_cache w tid of
                  None \<Rightarrow> (Inl KeyError, w)
                | Some t \<Rightarrow>
                    (case (if ip_filter_authenticated_enable t
                           then check_location ip_address ip_network t client_ip else Inr ()) of
                       Inl e \<Rightarrow> (Inl e, w)
                     | Inr _ \<Rightarrow>
                         (case Sessions_new token tid (u_id u) (role u) (password_change_needed u)
                                 (w\<lparr>users := map (\<lambda>r. if u_id r = u_id u then r\<lparr>last_login := now\<rparr> else r)
                                                  (users w)\<rparr>) of
                            (s, w') \<Rightarrow> (Inr s, w'))))))"

text \<open>
  The query of \<open>login_whistleblower\<close>: the pairs of a WhistleblowerTip with the hashed
  receipt in the tenant and the InternalTip of the same id and tenant; \<open>.first()\<close> takes
  the first pair.
\<close>

definition whistleblower_query :: "world \<Rightarrow> int \<Rightarrow> string \<Rightarrow> (whistleblower_tip \<times> internal_tip) list" where
  "whistleblower_query w tid hashed_receipt =
     concat (map (\<lambda>wbtip.
        map (\<lambda>itip. (wbtip, itip))
          (filter (\<lambda>itip. receipt_hash wbtip = hashed_receipt \<and> wb_tid wbtip = tid \<and>
                          it_id itip = wb_id wbtip \<and> it_tid itip = wb_tid wbtip)
             (internal_tips w)))
       (whistleblower_tips w))"

text \<open>\<open>login_whistleblower\<close>; \<open>hash_password\<close> is \<open>security.hash_password\<close>, a parameter.\<close>

definition login_whistleblower ::
  "(string \<Rightarrow> string \<Rightarrow> string) \<Rightarrow> nat \<Rightarrow> string \<Rightarrow> world \<Rightarrow> int \<Rightarrow> string \<Rightarrow> bool
    \<Rightarrow> (error + session) \<times> world" where
  "login_whistleblower hash_password now token w tid receipt client_using_tor =
     (case tenant_cache w tid of
        None \<Rightarrow> (Inl KeyError, w)
      | Some t \<Rightarrow>
          (let hashed_receipt = hash_password receipt (receipt_salt t) in
           case whistleblower_query w tid hashed_receipt of
             [] \<Rightarrow>
               (Inl InvalidAuthentication, w\<lparr>failed_login_attempts := failed_login_attempts w + 1\<rparr>)
           | (wbtip, itip) # _ \<Rightarrow>
               if \<not> client_using_tor \<and> \<not> https_whistleblower t then (Inl TorNetworkRequired, w)
               else
                 (case Sessions_new token tid (wb_id wbtip) Whistleblower False
                         (w\<lparr>internal_tips :=
                              map (\<lambda>r. if it_id r = it_id itip then r\<lparr>wb_last_access := now\<rparr> else r)
                                (internal_tips w)\<rparr>) of
                    (s, w') \<Rightarrow> (Inr s, w'))))"

text \<open>
  \<open>.one()\<close> of the ORM: the only row of the result; it raises when there is none and
  when there are several.
\<close>

fun query_one :: "'a list \<Rightarrow> error + 'a" where
  "query_one [] = Inl NoResultFound"
| "query_one [x] = Inr x"
| "query_one (x # y # zs) = Inl MultipleResultsFound"

text \<open>
  \<open>check_tenant_auth_switch\<close>: the value returned is \<open>ut is not None\<close> for the row \<open>ut\<close>
  that \<open>.one()\<close> returned; a row is an object, written \<open>Some ut\<close> where Python compares
  it with \<open>None\<close>.
\<close>

definition check_tenant_auth_switch :: "world \<Rightarrow> session \<Rightarrow> int \<Rightarrow> error + bool" where
  "check_tenant_auth_switch w current_user tid =
     (case query_one (filter (\<lambda>ut. user_id ut = sess_user_id current_user \<and> tenant_id ut = tid)
                        (user_tenants w)) of
        Inl e \<Rightarrow> Inl e
      | Inr ut \<Rightarrow> Inr (Some ut \<noteq> None))"

text \<open>
  \<open>TenantAuthSwitchHandler.get\<close> after the check has returned: the local variable
  \<open>session\<close> is bound only when the check is true, and the response reads the host name
  of the tenant and then \<open>session.id\<close>.
\<close>

definition tenant_auth_switch_response ::
  "string \<Rightarrow> world \<Rightarrow> session \<Rightarrow> int \<Rightarrow> bool \<Rightarrow> (error + string) \<times> world" where
  "tenant_auth_switch_response token w current_user tid check =
     (case (if check
            then (case Sessions_new token tid (sess_user_id current_user) (user_role current_user)
                         (pcn current_user) w of
                    (s, w') \<Rightarrow> (Some s, w'))
            else (None, w)) of
        (session_var, w') \<Rightarrow>
          (case tenant_cache w' tid of
             None \<Rightarrow> (Inl KeyError, w')
           | Some t \<Rightarrow>
               (case session_var of
                  None \<Rightarrow> (Inl UnboundLocalError, w')
                | Some s \<Rightarrow> (Inr (''https://'' @ hostname t @ ''/#/login?token='' @ sess_id s), w'))))"

definition TenantAuthSwitchHandler_get ::
  "string \<Rightarrow> world \<Rightarrow> session \<Rightarrow> int \<Rightarrow> (error + string) \<times> world" where
  "TenantAuthSwitchHandler_get token w current_user tid =
     (case check_tenant_auth_switch w current_user tid of
        Inl e \<Rightarrow> (Inl e, w)
      | Inr check \<Rightarrow> tenant_auth_switch_response token w current_user tid check)"

text \<open>
  For the examples: a password check and a receipt hash that stand for the functions of
  \<open>globaleaks.utils.security\<close> (the stored hash is the salt followed by the secret).
\<close>

definition salted :: "string \<Rightarrow> string \<Rightarrow> string" where
  "salted secret s = s @ secret"

definition salted_check :: "string \<Rightarrow> string \<Rightarrow> string \<Rightarrow> bool" where
  "salted_check pw s stored = (stored = salted pw s)"


text \<open>A small installation for the examples: one tenant, two users, one tip.\<close>

definition demo_tenant :: tenant where
  "demo_tenant = \<lparr>receipt_salt = ''s1'', https_admin = True, https_receiver = False,
     https_custodian = True, https_whistleblower = False,
     ip_filter_authenticated_enable = True,
     ip_filter_authenticated = ''10.0.0.1,192.168.1.0/24'', hostname = ''example.org''\<rparr>"

definition demo_alice :: user where
  "demo_alice = \<lparr>u_id = ''u1'', username = ''alice'', salt = ''sa'', password = ''sapw1'',
     state = ''enabled'', role = Admin, password_change_needed = False, last_login = 0\<rparr>"

definition demo_bob :: user where
  "demo_bob = \<lparr>u_id = ''u2'', username = ''bob'', salt = ''sb'', password = ''sbpw2'',
     state = ''enabled'', role = Receiver, password_change_needed = True, last_login = 0\<rparr>"

definition demo_world :: world where
  "demo_world = \<lparr>failed_login_attempts = 4,
     tenant_cache = [1 \<mapsto> demo_tenant],
     users = [demo_alice, demo_bob],
     user_tenants = [\<lparr>user_id = ''u1'', tenant_id = 1\<rparr>, \<lparr>user_id = ''u2'', tenant_id = 1\<rparr>],
     whistleblower_tips = [\<lparr>wb_id = ''t1'', wb_tid = 1, receipt_hash = ''s11234''\<rparr>],
     internal_tips = [\<lparr>it_id = ''t1'', it_tid = 1, wb_last_access = 0\<rparr>],
     sessions = Map.empty\<rparr>"


section \<open>Properties of the login delay\<close>

lemma randint_nonempty_range:
  "a \<le> b \<Longrightarrow> randint a b = Inr ` {a..b}"
  by (simp add: randint_def)

lemma square_ge_49:
  fixes F :: int
  assumes "7 \<le> F"
  shows "49 \<le> F * F"
proof -
  have "7 * 7 \<le> F * F"
    using assms by (intro mult_mono) simp_all
  then show ?thesis by simp
qed

text \<open>
  C1. For every value \<open>F\<close> of the failed-login counter the delay is \<open>0\<close> when
  \<open>F < 5\<close>, an integer of \<open>[5,25]\<close> at \<open>F = 5\<close>, of \<open>[6,36]\<close> at \<open>F = 6\<close>, of
  \<open>[7,42]\<close> at \<open>F = 7\<close>, of \<open>[F,42]\<close> for \<open>8 \<le> F \<le> 42\<close>, and exactly \<open>42\<close> beyond.
  The outcome sets are given exactly: the draw always returns (it never hits the empty
  range) and every value of the interval is possible.
\<close>

theorem random_login_delay_table:
  "(F < 5 \<longrightarrow> random_login_delay F = {Inr 0}) \<and>
   (F = 5 \<longrightarrow> random_login_delay F = Inr ` {5..25}) \<and>
   (F = 6 \<longrightarrow> random_login_delay F = Inr ` {6..36}) \<and>
   (F = 7 \<longrightarrow> random_login_delay F = Inr ` {7..42}) \<and>
   (8 \<le> F \<and> F \<le> 42 \<longrightarrow> random_login_delay F = Inr ` {F..42}) \<and>
   (42 < F \<longrightarrow> random_login_delay F = {Inr 42})"
proof (intro conjI impI)
  assume "F < 5"
  then show "random_login_delay F = {Inr 0}"
    by (simp add: random_login_delay_def)
next
  assume "F = 5"
  then show "random_login_delay F = Inr ` {5..25}"
    by (simp add: random_login_delay_def randint_def)
next
  assume "F = 6"
  then show "random_login_delay F = Inr ` {6..36}"
    by (simp add: random_login_delay_def randint_def)
next
  assume "F = 7"
  then show "random_login_delay F = Inr ` {7..42}"
    by (simp add: random_login_delay_def randint_def)
next
  assume F: "8 \<le> F \<and> F \<le> 42"
  then have sq: "\<not> F * F < 42"
    using square_ge_49 [of F] by simp
  show "random_login_delay F = Inr ` {F..42}"
  proof (cases "F < 42")
    case True
    with F sq show ?thesis
      by (simp add: random_login_delay_def Let_def randint_nonempty_range)
  next
    case False
    with F have "F = 42" by simp
    then show ?thesis
      by (simp add: random_login_delay_def randint_def)
  qed
next
  assume F: "42 < F"
  then have sq: "\<not> F * F < 42"
    using square_ge_49 [of F] by simp
  from F sq show "random_login_delay F = {Inr 42}"
    by (simp add: random_login_delay_def Let_def randint_def)
qed

theorem random_login_delay_table_witness:
  "random_login_delay 3 = {Inr 0} \<and>
   random_login_delay 5 = Inr ` {5..25} \<and>
   random_login_delay 6 = Inr ` {6..36} \<and>
   random_login_delay 7 = Inr ` {7..42} \<and>
   random_login_delay 20 = Inr ` {20..42} \<and>
   random_login_delay 50 = {Inr 42}"
  using random_login_delay_table [of 3] random_login_delay_table [of 5]
    random_login_delay_table [of 6] random_login_delay_table [of 7]
    random_login_delay_table [of 20] random_login_delay_table [of 50]
  by simp


section \<open>Properties of the byte-count formatter\<close>

lemma digit_val_digit_char:
  assumes "d < 10"
  shows "digit_val (digit_char d) = d"
proof -
  from assms have "d \<in> {0, 1, 2, 3, 4, 5, 6, 7, 8, 9}" by auto
  then show ?thesis
    by (auto simp: digit_val_def digit_char_def)
qed

lemma read_nat_snoc: "read_nat (s @ [c]) = 10 * read_nat s + digit_val c"
  by (simp add: read_nat_def)

text \<open>\<open>show_nat\<close> prints the decimal numeral of its argument: reading it back gives it.\<close>

lemma read_show_nat: "read_nat (show_nat n) = n"
proof (induction n rule: show_nat.induct)
  case (1 n)
  show ?case
  proof (cases "n < 10")
    case True
    then show ?thesis
      by (subst show_nat.simps) (simp add: read_nat_def digit_val_digit_char)
  next
    case False
    with 1 have "read_nat (show_nat (n div 10)) = n div 10" by simp
    with False show ?thesis
      by (subst show_nat.simps) (simp add: read_nat_snoc digit_val_digit_char)
  qed
qed

text \<open>
  The rounding to a double does not show below \<open>2 ^ 53\<close>: first the bounds of
  \<open>bit_length\<close>, then the rounded quotient at a scale \<open>2 ^ s\<close> that is fine enough for
  the divisor, then the scale that \<open>true_divide\<close> picks.
\<close>

lemma bit_length_bounds:
  assumes "0 < n"
  shows "2 ^ (bit_length n - 1) \<le> n \<and> n < 2 ^ bit_length n"
  using assms
proof (induction n rule: bit_length.induct)
  case (1 n)
  have bl: "bit_length n = Suc (bit_length (n div 2))"
    using "1.prems" by (subst bit_length.simps) simp
  show ?case
  proof (cases "n div 2 = 0")
    case True
    with "1.prems" have "n = 1" by (simp add: div_eq_0_iff)
    then show ?thesis
      by (simp add: bit_length.simps)
  next
    case False
    with 1 have ih: "2 ^ (bit_length (n div 2) - 1) \<le> n div 2 \<and> n div 2 < 2 ^ bit_length (n div 2)"
      by simp
    from False have "bit_length (n div 2) = Suc (bit_length (n div 2 div 2))"
      by (subst bit_length.simps) simp
    then obtain j where j: "bit_length (n div 2) = Suc j" ..
    from ih j have "2 ^ j \<le> n div 2" "n div 2 < 2 ^ Suc j" by simp_all
    then have "2 * 2 ^ j \<le> n" "n < 2 * 2 ^ Suc j" by linarith+
    then show ?thesis
      by (simp add: bl j)
  qed
qed

lemma round_half_even_cases:
  "round_half_even a d = a div d \<or>
   (d \<le> 2 * (a mod d) \<and> round_half_even a d = a div d + 1)"
  by (auto simp: round_half_even_def Let_def)

lemma round_scaled_div:
  fixes a k s :: nat
  assumes k: "0 < k" and small: "k < 2 ^ Suc s"
  shows "round_half_even (a * 2 ^ s) k div 2 ^ s = a div k"
proof -
  define P :: nat where "P = 2 ^ s"
  define q r where "q = a div k" and "r = a mod k"
  define u v where "u = (r * P) div k" and "v = (r * P) mod k"
  have Ppos: "0 < P" by (simp add: P_def)
  have a: "a = q * k + r" by (simp add: q_def r_def)
  have r: "r < k" using k by (simp add: r_def)
  have N: "a * P = (q * P) * k + r * P"
    by (simp add: a algebra_simps)
  have Ndiv: "(a * P) div k = q * P + u"
    unfolding N u_def using k by simp
  have Nmod: "(a * P) mod k = v"
    unfolding N v_def by simp
  have rP: "r * P = k * u + v"
    by (simp add: u_def v_def)
  have "r * P < k * P" using r Ppos by simp
  with rP have "k * u < k * P" by linarith
  then have uP: "u < P" by simp
  let ?m = "round_half_even (a * P) k"
  have lower: "P * q \<le> ?m"
    using round_half_even_cases [of "a * P" k] Ndiv by (auto simp: algebra_simps)
  have upper: "?m < P * Suc q"
  proof (cases "Suc u < P")
    case True
    with round_half_even_cases [of "a * P" k] Ndiv show ?thesis
      by (auto simp: algebra_simps)
  next
    case False
    with uP have u: "Suc u = P" by simp
    then have "k * u + k = k * P"
      by (metis mult_Suc_right add.commute)
    with rP have e1: "r * P + k = k * P + v" by linarith
    from r have "Suc r \<le> k" by simp
    then have "Suc r * P \<le> k * P" by (rule mult_le_mono1)
    then have e2: "r * P + P \<le> k * P" by simp
    from e1 e2 have "v + P \<le> k" by linarith
    moreover from small have "k < 2 * P" by (simp add: P_def)
    ultimately have "2 * v < k" by linarith
    with round_half_even_cases [of "a * P" k] Nmod have "?m = (a * P) div k"
      by auto
    with Ndiv uP show ?thesis
      by (simp add: algebra_simps)
  qed
  from lower upper have "?m div P = q"
    by (rule div_nat_eqI)
  then show ?thesis
    by (simp add: P_def q_def)
qed

lemma quotient_log2_less:
  assumes a: "0 < a" and k: "0 < k" and bound: "a < k * 2 ^ t"
  shows "quotient_log2 a k < int t"
proof -
  define l where "l = int (bit_length a) - int (bit_length k)"
  show ?thesis
  proof (cases "quotient_log2 a k = l")
    case True
    show ?thesis
    proof (cases "0 \<le> l")
      case False
      with True show ?thesis by simp
    next
      case nonneg: True
      with True have "k * 2 ^ nat l \<le> a"
        by (auto simp: quotient_log2_def l_def Let_def split: if_splits)
      with bound have "k * 2 ^ nat l < k * 2 ^ t" by linarith
      then have "(2::nat) ^ nat l < 2 ^ t" by simp
      then have "nat l < t" by simp
      with True nonneg show ?thesis by simp
    qed
  next
    case False
    then have fl: "quotient_log2 a k = l - 1"
      by (auto simp: quotient_log2_def l_def Let_def split: if_splits)
    have "l \<le> int t"
    proof (rule ccontr)
      assume "\<not> l \<le> int t"
      then have "bit_length k + t + 1 \<le> bit_length a"
        by (simp add: l_def)
      then have "bit_length k + t \<le> bit_length a - 1" by simp
      then have "(2::nat) ^ (bit_length k + t) \<le> 2 ^ (bit_length a - 1)"
        by (rule power_increasing) simp
      also have "\<dots> \<le> a"
        using bit_length_bounds [OF a] by simp
      finally have "2 ^ bit_length k * 2 ^ t \<le> a"
        by (simp add: power_add)
      moreover have "k < 2 ^ bit_length k"
        using bit_length_bounds [OF k] by simp
      then have "k * 2 ^ t < 2 ^ bit_length k * 2 ^ t" by simp
      ultimately show False using bound by linarith
    qed
    with fl show ?thesis by simp
  qed
qed

lemma int_quot_exact:
  assumes a: "0 < a" and k: "0 < k" and bound: "a < k * 2 ^ t"
    and t: "t \<le> 52" and small: "k < 2 ^ (54 - t)"
  shows "int_quot (int a) (int k) = Inr (int (a div k))"
proof -
  define e where "e = quotient_log2 a k - 52"
  define s where "s = nat (- e)"
  from quotient_log2_less [OF a k bound] t have neg: "e < 0"
    by (simp add: e_def)
  from quotient_log2_less [OF a k bound] t have "54 - t \<le> Suc s"
    by (simp add: e_def s_def)
  then have "(2::nat) ^ (54 - t) \<le> 2 ^ Suc s"
    by (rule power_increasing) simp
  with small have ks: "k < 2 ^ Suc s" by linarith
  from a neg have td: "true_divide a k = Inr (round_half_even (a * 2 ^ s) k, e)"
    by (simp add: true_divide_def e_def [symmetric] s_def Let_def)
  from neg have "int_of_double (round_half_even (a * 2 ^ s) k, e)
      = round_half_even (a * 2 ^ s) k div 2 ^ s"
    by (simp add: int_of_double_def s_def)
  also have "\<dots> = a div k"
    using k ks by (rule round_scaled_div)
  finally show ?thesis
    using td by (simp add: int_quot_def)
qed

lemma int_quot_zero: "int_quot 0 k = Inr 0"
  by (simp add: int_quot_def true_divide_def int_of_double_def)

text \<open>The three divisions of \<open>bytes_to_pretty_str\<close> on a count below \<open>2 ^ 53\<close>.\<close>

lemma int_quot_giga:
  assumes "1000000000 \<le> b" and "b < 2 ^ 53"
  shows "int_quot b 1000000000 = Inr (b div 1000000000)"
proof -
  have "int_quot (int (nat b)) (int 1000000000) = Inr (int (nat b div 1000000000))"
    using assms by (intro int_quot_exact [where t = 24]) simp_all
  with assms show ?thesis
    by (simp add: zdiv_int)
qed

lemma int_quot_mega:
  assumes "0 < b" and "b < 1000000000"
  shows "int_quot b 1000000 = Inr (b div 1000000)"
proof -
  have "int_quot (int (nat b)) (int 1000000) = Inr (int (nat b div 1000000))"
    using assms by (intro int_quot_exact [where t = 10]) simp_all
  with assms show ?thesis
    by (simp add: zdiv_int)
qed

lemma int_quot_kilo:
  assumes "0 \<le> b" and "b < 1000000"
  shows "int_quot b 1000 = Inr (b div 1000)"
proof (cases "b = 0")
  case True
  then show ?thesis by (simp add: int_quot_zero)
next
  case False
  have "int_quot (int (nat b)) (int 1000) = Inr (int (nat b div 1000))"
    using assms False by (intro int_quot_exact [where t = 10]) simp_all
  with assms show ?thesis
    by (simp add: zdiv_int)
qed

lemma bytes_to_pretty_str_nonneg:
  assumes "0 \<le> b" and "b < 2 ^ 53"
  shows "bytes_to_pretty_str f (PyInt b) =
     Inr (if b \<ge> 1000000000 then show_nat (nat (b div 1000000000)) @ ''GB''
          else if b \<ge> 1000000 then show_nat (nat (b div 1000000)) @ ''MB''
          else show_nat (nat (b div 1000)) @ ''KB'')"
proof -
  consider "1000000000 \<le> b" | "1000000 \<le> b" "b < 1000000000" | "b < 1000000"
    by linarith
  then show ?thesis
  proof cases
    case 1
    with assms show ?thesis
      by (simp add: bytes_to_pretty_str_def int_quot_giga show_int_def pos_imp_zdiv_neg_iff)
  next
    case 2
    then show ?thesis
      by (simp add: bytes_to_pretty_str_def int_quot_mega show_int_def pos_imp_zdiv_neg_iff)
  next
    case 3
    with assms show ?thesis
      by (simp add: bytes_to_pretty_str_def int_quot_kilo show_int_def pos_imp_zdiv_neg_iff)
  qed
qed

text \<open>
  C8, as the code has it. A byte count \<open>b\<close> with \<open>0 \<le> b < 2 ^ 53\<close> is printed as the
  decimal numeral of a quotient \<open>q\<close> and a label: \<open>KB\<close> with unit 1000 below one
  million (also below 1000: there is no bytes label), \<open>MB\<close> with unit one million below
  one billion, \<open>GB\<close> with unit one billion from there on; \<open>q\<close> is the truncated
  quotient, \<open>q * unit \<le> b < (q + 1) * unit\<close>. A string argument is converted by
  \<open>int\<close> first. So 500 gives \<open>0KB\<close>, 2500000 gives \<open>2MB\<close> and 3000000000 gives \<open>3GB\<close>.
\<close>

theorem bytes_to_pretty_str_truncates:
  assumes "0 \<le> b" and "b < 2 ^ 53"
  shows "(\<exists>q. bytes_to_pretty_str f (PyInt b) =
            Inr (show_nat q @ (if b < 1000000 then ''KB'' else if b < 1000000000 then ''MB'' else ''GB'')) \<and>
          read_nat (show_nat q) = q \<and>
          int q * (if b < 1000000 then 1000 else if b < 1000000000 then 1000000 else 1000000000) \<le> b \<and>
          b < (int q + 1) * (if b < 1000000 then 1000 else if b < 1000000000 then 1000000 else 1000000000)) \<and>
         bytes_to_pretty_str f (PyStr s) =
           (case f s of None \<Rightarrow> Inl ValueError | Some i \<Rightarrow> bytes_to_pretty_str f (PyInt i)) \<and>
         bytes_to_pretty_str f (PyInt 500) = Inr ''0KB'' \<and>
         bytes_to_pretty_str f (PyInt 2500000) = Inr ''2MB'' \<and>
         bytes_to_pretty_str f (PyInt 3000000000) = Inr ''3GB''"
proof (intro conjI)
  let ?u = "if b < 1000000 then 1000 else if b < 1000000000 then 1000000 else (1000000000::int)"
  let ?l = "if b < 1000000 then ''KB'' else if b < 1000000000 then ''MB'' else ''GB''"
  have upos: "0 < ?u" by simp
  define q where "q = nat (b div ?u)"
  have qint: "int q = b div ?u"
    using assms(1) upos by (simp add: q_def pos_imp_zdiv_nonneg_iff)
  have split: "b = ?u * (b div ?u) + b mod ?u" by simp
  have lo: "int q * ?u \<le> b"
  proof -
    have "0 \<le> b mod ?u" using upos by (rule pos_mod_sign)
    with split have "?u * (b div ?u) \<le> b" by linarith
    then show ?thesis
      unfolding qint by (simp add: algebra_simps)
  qed
  have hi: "b < (int q + 1) * ?u"
  proof -
    have "b mod ?u < ?u" using upos by (rule pos_mod_bound)
    with split have "b < ?u * (b div ?u) + ?u" by linarith
    then show ?thesis
      unfolding qint by (simp add: algebra_simps)
  qed
  have out: "bytes_to_pretty_str f (PyInt b) = Inr (show_nat q @ ?l)"
    using assms by (simp add: bytes_to_pretty_str_nonneg q_def)
  from out lo hi read_show_nat [of q]
  show "\<exists>q. bytes_to_pretty_str f (PyInt b) = Inr (show_nat q @ ?l) \<and>
      read_nat (show_nat q) = q \<and> int q * ?u \<le> b \<and> b < (int q + 1) * ?u"
    by blast
next
  show "bytes_to_pretty_str f (PyStr s) =
      (case f s of None \<Rightarrow> Inl ValueError | Some i \<Rightarrow> bytes_to_pretty_str f (PyInt i))"
    by (simp add: bytes_to_pretty_str_def split: option.splits)
next
  show "bytes_to_pretty_str f (PyInt 500) = Inr ''0KB''"
    by (simp add: bytes_to_pretty_str_nonneg show_nat.simps digit_char_def)
next
  show "bytes_to_pretty_str f (PyInt 2500000) = Inr ''2MB''"
    by (simp add: bytes_to_pretty_str_nonneg show_nat.simps digit_char_def)
next
  show "bytes_to_pretty_str f (PyInt 3000000000) = Inr ''3GB''"
    by (simp add: bytes_to_pretty_str_nonneg show_nat.simps digit_char_def)
qed

theorem bytes_to_pretty_str_truncates_witness:
  "(\<exists>q. bytes_to_pretty_str dec_int_of_str (PyInt 1999) = Inr (show_nat q @ ''KB'') \<and>
        int q * 1000 \<le> 1999 \<and> 1999 < (int q + 1) * 1000) \<and>
   bytes_to_pretty_str dec_int_of_str (PyStr ''2500000'') = Inr ''2MB''"
proof -
  have s: "dec_int_of_str ''2500000'' = Some 2500000"
    by (simp add: dec_int_of_str_def dec_nat_of_str_def is_digit_def read_nat_def digit_val_def)
  show ?thesis
    using bytes_to_pretty_str_truncates [of 1999 dec_int_of_str "''2500000''"] s
    by auto
qed

text \<open>
  Beyond \<open>2 ^ 53\<close> the rounding to a double shows: the quotient of 16777216999999999 by
  one billion is rounded up to 16777217 before \<open>int\<close> truncates it, and the quotient of
  \<open>10 ^ 25 - 1\<close> to \<open>10 ^ 16\<close>.
\<close>

lemma int_quot_rounds_up:
  "int_quot 16777216999999999 1000000000 = Inr 16777217"
  "int_quot (10 ^ 25 - 1) 1000000000 = Inr 10000000000000000"
  by (simp_all add: int_quot_def true_divide_def quotient_log2_def round_half_even_def
      int_of_double_def Let_def bit_length.simps)

text \<open>
  The claim's first example does not hold on the code: 500 is below every threshold,
  the last branch prints \<open>int(500 / 1000) = 0\<close>, and the result is \<open>0KB\<close>, not
  \<open>500KB\<close>, for the integer and for the string argument. Nor is the quotient truncated
  for every count: 16777216999999999 is printed as \<open>16777217GB\<close>.
\<close>

theorem bytes_to_pretty_str_500_counterexample:
  "bytes_to_pretty_str dec_int_of_str (PyInt 500) = Inr ''0KB'' \<and>
   bytes_to_pretty_str dec_int_of_str (PyStr ''500'') = Inr ''0KB'' \<and>
   bytes_to_pretty_str dec_int_of_str (PyInt 500) \<noteq> Inr ''500KB'' \<and>
   bytes_to_pretty_str dec_int_of_str (PyInt 16777216999999999) = Inr ''16777217GB''"
proof -
  have s: "dec_int_of_str ''500'' = Some 500"
    by (simp add: dec_int_of_str_def dec_nat_of_str_def is_digit_def read_nat_def digit_val_def)
  have i: "bytes_to_pretty_str dec_int_of_str (PyInt 500) = Inr ''0KB''"
    by (simp add: bytes_to_pretty_str_nonneg show_nat.simps digit_char_def)
  have "bytes_to_pretty_str dec_int_of_str (PyStr ''500'') =
      bytes_to_pretty_str dec_int_of_str (PyInt 500)"
    using s by (simp add: bytes_to_pretty_str_def)
  moreover have "bytes_to_pretty_str dec_int_of_str (PyInt 16777216999999999)
      = Inr ''16777217GB''"
    by (simp add: bytes_to_pretty_str_def int_quot_rounds_up show_int_def show_nat.simps
        digit_char_def)
  ultimately show ?thesis using i by simp
qed


section \<open>Properties of the API response cache\<close>

lemma set_stores_entry:
  "gzipdata gz enc d = Inr body \<Longrightarrow>
   \<exists>c'. ApiCache_set gz enc c tid r l ct d = Inr ((ct, body), c') \<and>
        ApiCache_get c' tid r l = Some (ct, body)"
  by (simp add: ApiCache_get_def ApiCache_set_def Let_def)

lemma set_raises:
  "gzipdata gz enc d = Inl e \<Longrightarrow> ApiCache_set gz enc c tid r l ct d = Inl e"
  by (simp add: ApiCache_set_def)

lemma get_after_step_other:
  "(tid', r', l') \<noteq> (tid, r, l) \<Longrightarrow>
   ApiCache_get (cache_step gz enc c (CallSet tid r l ct d)) tid' r' l' = ApiCache_get c tid' r' l'"
  by (auto simp: ApiCache_get_def ApiCache_set_def Let_def split: option.splits sum.splits)

lemma get_after_invalidate_absent:
  "ApiCache_get c tid r l = None \<Longrightarrow> ApiCache_get (ApiCache_invalidate c t) tid r l = None"
  by (auto simp: ApiCache_get_def ApiCache_invalidate_def split: option.splits)

text \<open>A key that no call of the history sets stays absent, whatever the other calls do.\<close>

lemma get_unset_key:
  "ApiCache_get c tid r l = None \<Longrightarrow> Some (tid, r, l) \<notin> set_key ` set calls \<Longrightarrow>
   ApiCache_get (foldl (cache_step gz enc) c calls) tid r l = None"
proof (induction calls arbitrary: c)
  case Nil
  then show ?case by simp
next
  case (Cons a calls)
  have "ApiCache_get (cache_step gz enc c a) tid r l = None"
  proof (cases a)
    case (CallSet t' r' l' ct d)
    with Cons.prems(2) have "(tid, r, l) \<noteq> (t', r', l')" by auto
    with Cons.prems(1) CallSet show ?thesis
      by (simp add: get_after_step_other del: cache_step.simps)
  next
    case (CallInvalidate t)
    with Cons.prems(1) show ?thesis
      by (simp add: get_after_invalidate_absent)
  qed
  moreover from Cons.prems(2) have "Some (tid, r, l) \<notin> set_key ` set calls" by auto
  ultimately show ?case
    using Cons.IH by simp
qed

text \<open>
  C5, as the code has it. For every tenant id, resource path, language and content type,
  every cache, and every data value that is bytes or a text that the encoder encodes:
  \<open>set\<close> returns an entry and \<open>get\<close> with the same three keys returns this entry
  afterwards; its content type is the one passed, and its body decompresses to the bytes
  of the data (the encoding of a text), for any compressor \<open>gz\<close> whose decompressor
  \<open>gunzip\<close> inverts it. For a text that the encoder does not encode, \<open>set\<close> raises
  UnicodeEncodeError. \<open>get\<close> for a key triple that no \<open>set\<close> of the history since the
  empty cache used returns the absent result.
\<close>

theorem ApiCache_set_get_roundtrip:
  assumes "\<forall>b. gunzip (gz b) = b"
  shows "((case data of Text t \<Rightarrow> encode t | Bytes b \<Rightarrow> Some b) = Some raw \<longrightarrow>
            (\<exists>body c'.
               ApiCache_set gz encode c tid resource language content_type data
                 = Inr ((content_type, body), c') \<and>
               ApiCache_get c' tid resource language = Some (content_type, body) \<and>
               gunzip body = raw)) \<and>
         ((case data of Text t \<Rightarrow> encode t | Bytes b \<Rightarrow> Some b) = None \<longrightarrow>
            ApiCache_set gz encode c tid resource language content_type data
              = Inl UnicodeEncodeError) \<and>
         (Some (tid, resource, language) \<notin> set_key ` set calls \<longrightarrow>
            ApiCache_get (cache_after gz encode calls) tid resource language = None)"
proof (intro conjI impI)
  assume "(case data of Text t \<Rightarrow> encode t | Bytes b \<Rightarrow> Some b) = Some raw"
  then have "gzipdata gz encode data = Inr (gz raw)"
    by (simp add: gzipdata_def)
  from set_stores_entry [OF this, of c tid resource language content_type] assms
  show "\<exists>body c'.
      ApiCache_set gz encode c tid resource language content_type data
        = Inr ((content_type, body), c') \<and>
      ApiCache_get c' tid resource language = Some (content_type, body) \<and>
      gunzip body = raw"
    by auto
next
  assume "(case data of Text t \<Rightarrow> encode t | Bytes b \<Rightarrow> Some b) = None"
  then have "gzipdata gz encode data = Inl UnicodeEncodeError"
    by (simp add: gzipdata_def)
  then show "ApiCache_set gz encode c tid resource language content_type data
      = Inl UnicodeEncodeError"
    by (rule set_raises)
next
  assume unset: "Some (tid, resource, language) \<notin> set_key ` set calls"
  have "ApiCache_get Map.empty tid resource language = None"
    by (simp add: ApiCache_get_def)
  with unset show "ApiCache_get (cache_after gz encode calls) tid resource language = None"
    unfolding cache_after_def by (rule get_unset_key [rotated])
qed

lemma frame_gunzip_gzip: "\<forall>b. frame_gunzip (frame_gzip b) = b"
  by (simp add: frame_gunzip_def frame_gzip_def)

lemma utf8_encode_example:
  "utf8_encode [123, 34, 97, 34, 58, 49, 125] = Some [123, 34, 97, 34, 58, 49, 125]"
  by (simp add: utf8_encode_def utf8_code_point_def encodable_def)

lemma utf8_encode_surrogate: "utf8_encode [55296] = None"
  by (simp add: utf8_encode_def encodable_def)

theorem ApiCache_set_get_roundtrip_witness:
  "(\<exists>c'. ApiCache_set frame_gzip utf8_encode Map.empty 1 ''/x'' ''en'' ''application/json''
           (Text [123, 34, 97, 34, 58, 49, 125])
         = Inr ((''application/json'', [31, 139, 123, 34, 97, 34, 58, 49, 125]), c') \<and>
        ApiCache_get c' 1 ''/x'' ''en''
         = Some (''application/json'', [31, 139, 123, 34, 97, 34, 58, 49, 125])) \<and>
   frame_gunzip [31, 139, 123, 34, 97, 34, 58, 49, 125] = [123, 34, 97, 34, 58, 49, 125] \<and>
   ApiCache_set frame_gzip utf8_encode Map.empty 1 ''/x'' ''en'' ''text/plain'' (Text [55296])
     = Inl UnicodeEncodeError \<and>
   ApiCache_get
     (cache_after frame_gzip utf8_encode
        [CallSet 1 ''/x'' ''en'' ''application/json'' (Text [123, 34, 97, 34, 58, 49, 125])])
     1 ''/y'' ''en'' = None"
proof -
  have g: "gzipdata frame_gzip utf8_encode (Text [123, 34, 97, 34, 58, 49, 125])
      = Inr [31, 139, 123, 34, 97, 34, 58, 49, 125]"
    by (simp add: gzipdata_def utf8_encode_example frame_gzip_def)
  have first: "\<exists>c'. ApiCache_set frame_gzip utf8_encode Map.empty 1 ''/x'' ''en'' ''application/json''
           (Text [123, 34, 97, 34, 58, 49, 125])
         = Inr ((''application/json'', [31, 139, 123, 34, 97, 34, 58, 49, 125]), c') \<and>
        ApiCache_get c' 1 ''/x'' ''en''
         = Some (''application/json'', [31, 139, 123, 34, 97, 34, 58, 49, 125])"
    using ApiCache_set_get_roundtrip [where gunzip = frame_gunzip and gz = frame_gzip
        and encode = utf8_encode and c = Map.empty and tid = 1 and resource = "''/x''"
        and language = "''en''" and content_type = "''application/json''"
        and data = "Text [123, 34, 97, 34, 58, 49, 125]"
        and raw = "[123, 34, 97, 34, 58, 49, 125]"
        and calls = "[]", OF frame_gunzip_gzip]
    by (auto simp: utf8_encode_example ApiCache_set_def g Let_def)
  have rest: "ApiCache_set frame_gzip utf8_encode Map.empty 1 ''/x'' ''en'' ''text/plain'' (Text [55296])
        = Inl UnicodeEncodeError \<and>
      ApiCache_get
        (cache_after frame_gzip utf8_encode
          [CallSet 1 ''/x'' ''en'' ''application/json'' (Text [123, 34, 97, 34, 58, 49, 125])])
        1 ''/y'' ''en'' = None"
    using ApiCache_set_get_roundtrip [where gunzip = frame_gunzip and gz = frame_gzip
        and encode = utf8_encode and c = Map.empty and tid = 1 and resource = "''/x''"
        and language = "''en''" and content_type = "''text/plain''"
        and data = "Text [55296]"
        and calls = "[]", OF frame_gunzip_gzip]
      ApiCache_set_get_roundtrip [where gunzip = frame_gunzip and gz = frame_gzip
        and encode = utf8_encode and c = Map.empty and tid = 1 and resource = "''/y''"
        and language = "''en''" and content_type = "''application/json''"
        and data = "Text [123, 34, 97, 34, 58, 49, 125]"
        and calls = "[CallSet 1 ''/x'' ''en'' ''application/json''
                       (Text [123, 34, 97, 34, 58, 49, 125])]", OF frame_gunzip_gzip]
    by (simp add: utf8_encode_surrogate)
  from first rest show ?thesis
    by (simp add: frame_gunzip_def)
qed

text \<open>
  The claim as stated does not hold for every data value: \<open>str.encode()\<close> raises
  UnicodeEncodeError on a text that holds a lone surrogate, here the one code point
  \<open>D800\<close>. \<open>set\<close> raises before it stores anything, and \<open>get\<close> with the same three keys
  returns the absent result afterwards.
\<close>

theorem ApiCache_set_get_roundtrip_counterexample:
  "utf8_encode [55296] = None \<and>
   ApiCache_set frame_gzip utf8_encode Map.empty 1 ''/x'' ''en'' ''text/plain'' (Text [55296])
     = Inl UnicodeEncodeError \<and>
   ApiCache_get
     (cache_after frame_gzip utf8_encode [CallSet 1 ''/x'' ''en'' ''text/plain'' (Text [55296])])
     1 ''/x'' ''en'' = None"
proof -
  have s: "ApiCache_set frame_gzip utf8_encode Map.empty 1 ''/x'' ''en'' ''text/plain'' (Text [55296])
      = Inl UnicodeEncodeError"
    by (simp add: ApiCache_set_def gzipdata_def utf8_encode_surrogate)
  then have "cache_after frame_gzip utf8_encode [CallSet 1 ''/x'' ''en'' ''text/plain'' (Text [55296])]
      = Map.empty"
    by (simp add: cache_after_def)
  with s show ?thesis
    by (simp add: utf8_encode_surrogate ApiCache_get_def)
qed

text \<open>
  C6. For every cache: \<open>invalidate(tid)\<close> removes the sub-map of tenant \<open>tid\<close>, so every
  lookup under \<open>tid\<close> is absent afterwards, and leaves the sub-map of every other tenant
  as it was; \<open>invalidate()\<close> with no argument leaves the empty cache, so every lookup of
  every tenant is absent.
\<close>

theorem ApiCache_invalidate_frame:
  "ApiCache_invalidate c (Some tid) tid = None \<and>
   ApiCache_get (ApiCache_invalidate c (Some tid)) tid resource language = None \<and>
   (t \<noteq> tid \<longrightarrow>
      ApiCache_invalidate c (Some tid) t = c t \<and>
      ApiCache_get (ApiCache_invalidate c (Some tid)) t resource language
        = ApiCache_get c t resource language) \<and>
   ApiCache_invalidate c None = Map.empty \<and>
   ApiCache_get (ApiCache_invalidate c None) t resource language = None"
  by (simp add: ApiCache_get_def ApiCache_invalidate_def)

theorem ApiCache_invalidate_frame_witness:
  "ApiCache_get
     (ApiCache_invalidate
        (cache_after frame_gzip utf8_encode
           [CallSet 2 ''/x'' ''en'' ''text/plain'' (Bytes [104, 105]),
            CallSet 3 ''/x'' ''en'' ''text/plain'' (Bytes [104, 111])])
        (Some 2)) 2 ''/x'' ''en'' = None \<and>
   ApiCache_get
     (ApiCache_invalidate
        (cache_after frame_gzip utf8_encode
           [CallSet 2 ''/x'' ''en'' ''text/plain'' (Bytes [104, 105]),
            CallSet 3 ''/x'' ''en'' ''text/plain'' (Bytes [104, 111])])
        (Some 2)) 3 ''/x'' ''en'' = Some (''text/plain'', [31, 139, 104, 111])"
proof -
  let ?c = "cache_after frame_gzip utf8_encode
           [CallSet 2 ''/x'' ''en'' ''text/plain'' (Bytes [104, 105]),
            CallSet 3 ''/x'' ''en'' ''text/plain'' (Bytes [104, 111])]"
  have g: "ApiCache_get ?c 3 ''/x'' ''en'' = Some (''text/plain'', [31, 139, 104, 111])"
    by (simp add: cache_after_def ApiCache_set_def ApiCache_get_def gzipdata_def frame_gzip_def
        Let_def)
  show ?thesis
    using ApiCache_invalidate_frame [of ?c 2 "''/x''" "''en''" 3] g
    by simp
qed


section \<open>Properties of the shutdown\<close>

lemma on_event_callback: "on_event s e = shutdown_callback s"
  by (cases e) simp_all

lemma shutdown_run_finalized:
  "shutdown_flag s \<Longrightarrow> shutdown_run s events = s"
proof (induction events arbitrary: s)
  case Nil
  then show ?case by (simp add: shutdown_run_def)
next
  case (Cons e events)
  from Cons.prems have "on_event s e = s"
    by (simp add: on_event_callback shutdown_callback_def)
  with Cons show ?case
    by (simp add: shutdown_run_def)
qed

text \<open>
  C9. In a shutdown that starts with the flag \<open>_shutdown\<close> unset, whatever events follow
  and in whatever order (the timer, the end of the stop collection, or both), the
  finalize step runs exactly once: the first event runs it (the ORM thread pool is
  stopped once and \<open>d\<close> fires once, and the flag is set), and every later call of the
  callback leaves the state as it is.
\<close>

theorem shutdown_finalizes_once:
  assumes "\<not> shutdown_flag s"
  shows "shutdown_run s (e # events) = on_event s e \<and>
         orm_tp_stops (shutdown_run s (e # events)) = orm_tp_stops s + 1 \<and>
         d_callbacks (shutdown_run s (e # events)) = d_callbacks s + 1 \<and>
         shutdown_flag (shutdown_run s (e # events)) \<and>
         on_event (shutdown_run s (e # events)) e' = shutdown_run s (e # events)"
proof -
  have first: "on_event s e =
      s\<lparr>shutdown_flag := True, orm_tp_stops := orm_tp_stops s + 1, d_callbacks := d_callbacks s + 1\<rparr>"
    using assms by (simp add: on_event_callback shutdown_callback_def)
  then have flag: "shutdown_flag (on_event s e)" by simp
  have "shutdown_run s (e # events) = shutdown_run (on_event s e) events"
    by (simp add: shutdown_run_def)
  with flag have run: "shutdown_run s (e # events) = on_event s e"
    by (simp add: shutdown_run_finalized)
  have later: "on_event (on_event s e) e' = on_event s e"
    using flag by (simp add: on_event_callback [of _ e'] shutdown_callback_def)
  from run first later show ?thesis by simp
qed

theorem shutdown_finalizes_once_witness:
  "shutdown_run \<lparr>shutdown_flag = False, orm_tp_stops = 0, d_callbacks = 0\<rparr> [JobsStopped, TimerExpired]
     = \<lparr>shutdown_flag = True, orm_tp_stops = 1, d_callbacks = 1\<rparr> \<and>
   shutdown_run \<lparr>shutdown_flag = False, orm_tp_stops = 0, d_callbacks = 0\<rparr> [TimerExpired, JobsStopped]
     = \<lparr>shutdown_flag = True, orm_tp_stops = 1, d_callbacks = 1\<rparr> \<and>
   shutdown_run \<lparr>shutdown_flag = False, orm_tp_stops = 0, d_callbacks = 0\<rparr> [TimerExpired]
     = \<lparr>shutdown_flag = True, orm_tp_stops = 1, d_callbacks = 1\<rparr>"
  using shutdown_finalizes_once [of "\<lparr>shutdown_flag = False, orm_tp_stops = 0, d_callbacks = 0\<rparr>"
      JobsStopped "[TimerExpired]" TimerExpired]
    shutdown_finalizes_once [of "\<lparr>shutdown_flag = False, orm_tp_stops = 0, d_callbacks = 0\<rparr>"
      TimerExpired "[JobsStopped]" TimerExpired]
    shutdown_finalizes_once [of "\<lparr>shutdown_flag = False, orm_tp_stops = 0, d_callbacks = 0\<rparr>"
      TimerExpired "[]" TimerExpired]
  by (simp add: shutdown_callback_def)


section \<open>Properties of the IP list parser\<close>

lemma show_nat_32: "show_nat 32 = ''32''"
  by (simp add: show_nat.simps digit_char_def)

lemma show_nat_128: "show_nat 128 = ''128''"
  by (simp add: show_nat.simps digit_char_def)

text \<open>One turn of the loop does to an entry what the specification says of it.\<close>

lemma parse_entries_step:
  "parse_entries pa pn (tok # rest) acc =
     (case spec_entry_network pa pn tok of
        None \<Rightarrow> Inl (unable_to_parse tok)
      | Some n \<Rightarrow> parse_entries pa pn rest (acc @ [n]))"
proof (cases "CHR ''/'' \<in> set tok")
  case True
  then show ?thesis
    by (simp add: spec_entry_network_def split: option.splits)
next
  case False
  show ?thesis
  proof (cases "pa tok")
    case None
    with False show ?thesis
      by (simp add: spec_entry_network_def)
  next
    case (Some a)
    with False show ?thesis
      by (cases a)
        (simp_all add: spec_entry_network_def show_nat_32 show_nat_128 split: option.splits)
  qed
qed

lemma parse_entries_all:
  "those (map (spec_entry_network pa pn) toks) = Some nets \<Longrightarrow>
   parse_entries pa pn toks acc = Inr (acc @ nets)"
proof (induction toks arbitrary: acc nets)
  case Nil
  then show ?case by simp
next
  case (Cons tok toks)
  from Cons.prems obtain n ns where
    n: "spec_entry_network pa pn tok = Some n" and
    ns: "those (map (spec_entry_network pa pn) toks) = Some ns" and
    nets: "nets = n # ns"
    by (auto split: option.splits)
  from Cons.IH [OF ns, of "acc @ [n]"] n nets show ?case
    by (simp add: parse_entries_step del: parse_entries.simps)
qed

lemma parse_entries_first_bad:
  "those (map (spec_entry_network pa pn) pre) = Some ns \<Longrightarrow>
   spec_entry_network pa pn tok = None \<Longrightarrow>
   parse_entries pa pn (pre @ tok # post) acc = Inl (unable_to_parse tok)"
proof (induction pre arbitrary: acc ns)
  case Nil
  then show ?case by (simp add: parse_entries_step del: parse_entries.simps)
next
  case (Cons p pre)
  from Cons.prems(1) obtain n ns' where
    n: "spec_entry_network pa pn p = Some n" and
    ns: "those (map (spec_entry_network pa pn) pre) = Some ns'"
    by (auto split: option.splits)
  from Cons.IH [OF ns Cons.prems(2), of "acc @ [n]"] n show ?case
    by (simp add: parse_entries_step del: parse_entries.simps)
qed

lemma ipv4_int_10_0_0_1: "ipv4_int ''10.0.0.1'' = Some 167772161"
  by (simp add: ipv4_int_def ipv4_octet_def is_digit_def read_nat_def digit_val_def)

lemma ipv4_int_8_8_8_8: "ipv4_int ''8.8.8.8'' = Some 134744072"
  by (simp add: ipv4_int_def ipv4_octet_def is_digit_def read_nat_def digit_val_def)

lemma ipv4_int_192_168_1_0: "ipv4_int ''192.168.1.0'' = Some 3232235776"
  by (simp add: ipv4_int_def ipv4_octet_def is_digit_def read_nat_def digit_val_def)

lemma ipv4_int_not_an_ip: "ipv4_int ''not-an-ip'' = None"
  by (simp add: ipv4_int_def ipv4_octet_def is_digit_def)

lemma ipv4_network_10_0_0_1: "ipv4_network ''10.0.0.1/32'' = Some (IPv4Network 167772161 32)"
  by (simp add: ipv4_network_def ipv4_int_10_0_0_1 ipv4_prefix_def is_digit_def read_nat_def
      digit_val_def)

lemma ipv4_network_192_168_1_0:
  "ipv4_network ''192.168.1.0/24'' = Some (IPv4Network 3232235776 24)"
  by (simp add: ipv4_network_def ipv4_int_192_168_1_0 ipv4_prefix_def is_digit_def read_nat_def
      digit_val_def mask_numeral)

text \<open>
  C7. For every comma-separated input string and every pair of library parsers: when
  every entry denotes a network in the sense of the specification (a strict CIDR network
  for an entry with a slash, taken as the parser gives it; the \<open>/32\<close> or \<open>/128\<close> host
  network for a bare IPv4 or IPv6 address), the result is the list of these networks in
  the order of the entries; when some entry denotes none, the function raises
  InputValidationError whose message names the first such entry. On
  \<open>10.0.0.1,192.168.1.0/24\<close> the result is exactly \<open>10.0.0.1/32\<close> and
  \<open>192.168.1.0/24\<close>, in this order, and \<open>not-an-ip\<close> raises the error naming it.
\<close>

theorem parse_csv_ip_ranges_to_ip_networks_spec:
  "(those (map (spec_entry_network pa pn) (split_on CHR '','' ip_str)) = Some nets \<longrightarrow>
      parse_csv_ip_ranges_to_ip_networks pa pn ip_str = Inr nets) \<and>
   (split_on CHR '','' ip_str = pre @ tok # post \<and>
    those (map (spec_entry_network pa pn) pre) = Some ns \<and>
    spec_entry_network pa pn tok = None \<longrightarrow>
      parse_csv_ip_ranges_to_ip_networks pa pn ip_str
        = Inl (InputValidationError (''Unable to parse IP address: '' @ tok))) \<and>
   parse_csv_ip_ranges_to_ip_networks ipv4_address ipv4_network ''10.0.0.1,192.168.1.0/24''
     = Inr [IPv4Network 167772161 32, IPv4Network 3232235776 24] \<and>
   parse_csv_ip_ranges_to_ip_networks ipv4_address ipv4_network ''not-an-ip''
     = Inl (InputValidationError ''Unable to parse IP address: not-an-ip'')"
proof (intro conjI impI)
  assume "those (map (spec_entry_network pa pn) (split_on CHR '','' ip_str)) = Some nets"
  then show "parse_csv_ip_ranges_to_ip_networks pa pn ip_str = Inr nets"
    using parse_entries_all [of pa pn "split_on CHR '','' ip_str" nets "[]"]
    by (simp add: parse_csv_ip_ranges_to_ip_networks_def)
next
  assume bad: "split_on CHR '','' ip_str = pre @ tok # post \<and>
    those (map (spec_entry_network pa pn) pre) = Some ns \<and>
    spec_entry_network pa pn tok = None"
  then have "parse_entries pa pn (pre @ tok # post) [] = Inl (unable_to_parse tok)"
    using parse_entries_first_bad [of pa pn pre ns tok post "[]"] by simp
  with bad show "parse_csv_ip_ranges_to_ip_networks pa pn ip_str
      = Inl (InputValidationError (''Unable to parse IP address: '' @ tok))"
    by (simp add: parse_csv_ip_ranges_to_ip_networks_def unable_to_parse_def)
next
  show "parse_csv_ip_ranges_to_ip_networks ipv4_address ipv4_network ''10.0.0.1,192.168.1.0/24''
      = Inr [IPv4Network 167772161 32, IPv4Network 3232235776 24]"
    by (simp add: parse_csv_ip_ranges_to_ip_networks_def ipv4_address_def ipv4_int_10_0_0_1
        ipv4_network_10_0_0_1 ipv4_network_192_168_1_0 show_nat_32)
next
  show "parse_csv_ip_ranges_to_ip_networks ipv4_address ipv4_network ''not-an-ip''
      = Inl (InputValidationError ''Unable to parse IP address: not-an-ip'')"
    by (simp add: parse_csv_ip_ranges_to_ip_networks_def ipv4_address_def ipv4_int_not_an_ip
        unable_to_parse_def)
qed

theorem parse_csv_ip_ranges_to_ip_networks_spec_witness:
  "parse_csv_ip_ranges_to_ip_networks ipv4_address ipv4_network ''192.168.1.0/24,10.0.0.1''
     = Inr [IPv4Network 3232235776 24, IPv4Network 167772161 32] \<and>
   parse_csv_ip_ranges_to_ip_networks ipv4_address ipv4_network ''10.0.0.1,not-an-ip,8.8.8.8''
     = Inl (InputValidationError ''Unable to parse IP address: not-an-ip'')"
proof -
  have e1: "spec_entry_network ipv4_address ipv4_network ''10.0.0.1''
      = Some (IPv4Network 167772161 32)"
    by (simp add: spec_entry_network_def ipv4_address_def ipv4_int_10_0_0_1 ipv4_network_10_0_0_1)
  have e2: "spec_entry_network ipv4_address ipv4_network ''192.168.1.0/24''
      = Some (IPv4Network 3232235776 24)"
    by (simp add: spec_entry_network_def ipv4_network_192_168_1_0)
  have e3: "spec_entry_network ipv4_address ipv4_network ''not-an-ip'' = None"
    by (simp add: spec_entry_network_def ipv4_address_def ipv4_int_not_an_ip)
  have s1: "split_on CHR '','' ''192.168.1.0/24,10.0.0.1'' = [''192.168.1.0/24'', ''10.0.0.1'']"
    by simp
  have s2: "split_on CHR '','' ''10.0.0.1,not-an-ip,8.8.8.8''
      = [''10.0.0.1''] @ ''not-an-ip'' # [''8.8.8.8'']"
    by simp
  show ?thesis
    using parse_csv_ip_ranges_to_ip_networks_spec [of ipv4_address ipv4_network
        "''192.168.1.0/24,10.0.0.1''" "[IPv4Network 3232235776 24, IPv4Network 167772161 32]"]
      parse_csv_ip_ranges_to_ip_networks_spec [of ipv4_address ipv4_network
        "''10.0.0.1,not-an-ip,8.8.8.8''" _ "[''10.0.0.1'']" "''not-an-ip''" "[''8.8.8.8'']"
        "[IPv4Network 167772161 32]"]
    by (simp only: s1 s2 e1 e2 e3 list.map those.simps option.case option.map append.simps
        simp_thms)
qed


section \<open>Properties of the authentication\<close>

lemma select_user_none:
  "\<not> list_ex (\<lambda>u. chk pw (salt u) (password u)) us \<Longrightarrow> select_user chk pw us found = found"
  by (induction us arbitrary: found) auto

lemma foldl_success:
  "foldl (\<lambda>success ip_net. if in_network a ip_net then True else success) s0 nets
     = (s0 \<or> list_ex (in_network a) nets)"
  by (induction nets arbitrary: s0) auto

lemma check_location_eq:
  "check_location pa pn t ip =
     (case parse_csv_ip_ranges_to_ip_networks pa pn (ip_filter_authenticated t) of
        Inl e \<Rightarrow> Inl e
      | Inr nets \<Rightarrow>
          (case pa ip of
             None \<Rightarrow> Inl ValueError
           | Some a \<Rightarrow>
               if is_loopback a \<or> list_ex (in_network a) nets then Inr ()
               else Inl AccessLocationInvalid))"
  unfolding check_location_def Let_def foldl_success
  by (simp split: sum.splits option.splits)

lemma demo_login_query_alice: "login_query demo_world 1 ''alice'' = [demo_alice]"
  by (simp add: login_query_def demo_world_def demo_alice_def demo_bob_def)

lemma demo_login_query_bob: "login_query demo_world 1 ''bob'' = [demo_bob]"
  by (simp add: login_query_def demo_world_def demo_alice_def demo_bob_def)

lemma demo_login_query_nobody: "login_query demo_world 1 ''nobody'' = []"
  by (simp add: login_query_def demo_world_def demo_alice_def demo_bob_def)

lemma demo_tenant_cache: "tenant_cache demo_world 1 = Some demo_tenant"
  by (simp add: demo_world_def)

lemma demo_whistleblower_query:
  "whistleblower_query demo_world 1 ''s11234''
     = [(\<lparr>wb_id = ''t1'', wb_tid = 1, receipt_hash = ''s11234''\<rparr>,
         \<lparr>it_id = ''t1'', it_tid = 1, wb_last_access = 0\<rparr>)]"
  by (simp add: whistleblower_query_def demo_world_def)

text \<open>
  C2. A staff login in which no user row that is not disabled, has a membership for the
  tenant and carries the username has a verifying password, and a whistleblower login
  (on a tenant of the cache) in which no WhistleblowerTip of the tenant has the salted
  hash of the receipt, both add one to the failed-login counter, change nothing else and
  fail with InvalidAuthentication. The outcome is this one value whether the name or
  receipt is unknown or the secret is wrong.
\<close>

theorem login_failure_uniform:
  "(\<not> list_ex (\<lambda>u. username u = uname \<and> state u \<noteq> ''disabled'' \<and>
              list_ex (\<lambda>ut. user_id ut = u_id u \<and> tenant_id ut = tid) (user_tenants w) \<and>
              chk pw (salt u) (password u)) (users w) \<longrightarrow>
      login chk pa pn now token w tid uname pw tor ip
        = (Inl InvalidAuthentication, w\<lparr>failed_login_attempts := failed_login_attempts w + 1\<rparr>)) \<and>
   (tenant_cache w tid = Some t \<and>
    \<not> list_ex (\<lambda>wbtip. wb_tid wbtip = tid \<and> receipt_hash wbtip = hash receipt (receipt_salt t))
        (whistleblower_tips w) \<longrightarrow>
      login_whistleblower hash now token w tid receipt tor
        = (Inl InvalidAuthentication, w\<lparr>failed_login_attempts := failed_login_attempts w + 1\<rparr>))"
proof (intro conjI impI)
  assume "\<not> list_ex (\<lambda>u. username u = uname \<and> state u \<noteq> ''disabled'' \<and>
              list_ex (\<lambda>ut. user_id ut = u_id u \<and> tenant_id ut = tid) (user_tenants w) \<and>
              chk pw (salt u) (password u)) (users w)"
  then have "\<not> list_ex (\<lambda>u. chk pw (salt u) (password u)) (login_query w tid uname)"
    by (auto simp: login_query_def list_ex_iff)
  then have "select_user chk pw (login_query w tid uname) None = None"
    by (rule select_user_none)
  then show "login chk pa pn now token w tid uname pw tor ip
      = (Inl InvalidAuthentication, w\<lparr>failed_login_attempts := failed_login_attempts w + 1\<rparr>)"
    by (simp add: login_def)
next
  assume a: "tenant_cache w tid = Some t \<and>
    \<not> list_ex (\<lambda>wbtip. wb_tid wbtip = tid \<and> receipt_hash wbtip = hash receipt (receipt_salt t))
        (whistleblower_tips w)"
  then have "whistleblower_query w tid (hash receipt (receipt_salt t)) = []"
    by (auto simp: whistleblower_query_def list_ex_iff filter_empty_conv)
  with a show "login_whistleblower hash now token w tid receipt tor
      = (Inl InvalidAuthentication, w\<lparr>failed_login_attempts := failed_login_attempts w + 1\<rparr>)"
    by (simp add: login_whistleblower_def)
qed

theorem login_failure_uniform_witness:
  "login salted_check ipv4_address ipv4_network 7 ''tok'' demo_world 1 ''nobody'' ''pw1'' True ''8.8.8.8''
     = (Inl InvalidAuthentication, demo_world\<lparr>failed_login_attempts := 5\<rparr>) \<and>
   login salted_check ipv4_address ipv4_network 7 ''tok'' demo_world 1 ''alice'' ''wrong'' True ''8.8.8.8''
     = (Inl InvalidAuthentication, demo_world\<lparr>failed_login_attempts := 5\<rparr>) \<and>
   login_whistleblower salted 7 ''tok'' demo_world 1 ''0000'' True
     = (Inl InvalidAuthentication, demo_world\<lparr>failed_login_attempts := 5\<rparr>)"
proof -
  have f: "failed_login_attempts demo_world + 1 = 5"
    by (simp add: demo_world_def)
  have u: "users demo_world = [demo_alice, demo_bob]"
    and m: "user_tenants demo_world = [\<lparr>user_id = ''u1'', tenant_id = 1\<rparr>, \<lparr>user_id = ''u2'', tenant_id = 1\<rparr>]"
    and t: "whistleblower_tips demo_world = [\<lparr>wb_id = ''t1'', wb_tid = 1, receipt_hash = ''s11234''\<rparr>]"
    by (simp_all add: demo_world_def)
  show ?thesis
    using login_failure_uniform [of "''nobody''" 1 demo_world salted_check "''pw1''"
        ipv4_address ipv4_network 7 "''tok''" True "''8.8.8.8''" demo_tenant salted "''0000''"]
      login_failure_uniform [of "''alice''" 1 demo_world salted_check "''wrong''"
        ipv4_address ipv4_network 7 "''tok''" True "''8.8.8.8''" demo_tenant salted "''0000''"]
    by (simp add: f u m t demo_tenant_cache demo_alice_def demo_bob_def demo_tenant_def
        salted_check_def salted_def)
qed

text \<open>
  C3. A login with verifying credentials, by a client that did not arrive over the
  anonymity network, on a tenant of the cache whose reachability flag for the role of the
  authenticated subject is false, fails with TorNetworkRequired and changes nothing: for
  staff the flag is \<open>https_<role>\<close> of the user the loop selected, for a whistleblower
  (a receipt that the query finds) it is \<open>https_whistleblower\<close>.
\<close>

theorem login_tor_required:
  "(select_user chk pw (login_query w tid uname) None = Some u \<and>
    \<not> tor \<and> tenant_cache w tid = Some t \<and> \<not> https_flag t (role u) \<longrightarrow>
      login chk pa pn now token w tid uname pw tor ip = (Inl TorNetworkRequired, w)) \<and>
   (tenant_cache w tid = Some t \<and>
    whistleblower_query w tid (hash receipt (receipt_salt t)) = (wbtip, itip) # rest \<and>
    \<not> tor \<and> \<not> https_whistleblower t \<longrightarrow>
      login_whistleblower hash now token w tid receipt tor = (Inl TorNetworkRequired, w))"
  by (simp add: login_def login_whistleblower_def)

theorem login_tor_required_witness:
  "login salted_check ipv4_address ipv4_network 7 ''tok'' demo_world 1 ''bob'' ''pw2'' False ''10.0.0.1''
     = (Inl TorNetworkRequired, demo_world) \<and>
   login_whistleblower salted 7 ''tok'' demo_world 1 ''1234'' False
     = (Inl TorNetworkRequired, demo_world)"
proof -
  have s: "select_user salted_check ''pw2'' (login_query demo_world 1 ''bob'') None = Some demo_bob"
    by (simp add: demo_login_query_bob) (simp add: demo_bob_def salted_check_def salted_def)
  have q: "whistleblower_query demo_world 1 (salted ''1234'' (receipt_salt demo_tenant))
      = (\<lparr>wb_id = ''t1'', wb_tid = 1, receipt_hash = ''s11234''\<rparr>,
         \<lparr>it_id = ''t1'', it_tid = 1, wb_last_access = 0\<rparr>) # []"
    by (simp add: salted_def demo_tenant_def demo_whistleblower_query)
  have r: "\<not> https_flag demo_tenant (role demo_bob)" "\<not> https_whistleblower demo_tenant"
    by (simp_all add: demo_bob_def demo_tenant_def)
  show ?thesis
    using login_tor_required [of salted_check "''pw2''" demo_world 1 "''bob''" demo_bob False
        demo_tenant ipv4_address ipv4_network 7 "''tok''" "''10.0.0.1''" salted "''1234''"
        "\<lparr>wb_id = ''t1'', wb_tid = 1, receipt_hash = ''s11234''\<rparr>"
        "\<lparr>it_id = ''t1'', it_tid = 1, wb_last_access = 0\<rparr>" "[]"]
      s q r demo_tenant_cache
    by simp
qed


lemma parse_entries_error:
  "parse_entries pa pn toks acc = Inl e \<Longrightarrow> \<exists>tok. e = unable_to_parse tok"
proof (induction toks arbitrary: acc)
  case Nil
  then show ?case by simp
next
  case (Cons tok toks)
  show ?case
  proof (cases "spec_entry_network pa pn tok")
    case None
    with Cons.prems show ?thesis
      by (auto simp: parse_entries_step simp del: parse_entries.simps)
  next
    case (Some n)
    with Cons.prems have "parse_entries pa pn toks (acc @ [n]) = Inl e"
      by (simp add: parse_entries_step del: parse_entries.simps)
    then show ?thesis by (rule Cons.IH)
  qed
qed

lemma parse_csv_not_location_error:
  "parse_csv_ip_ranges_to_ip_networks pa pn s \<noteq> Inl AccessLocationInvalid"
proof
  assume "parse_csv_ip_ranges_to_ip_networks pa pn s = Inl AccessLocationInvalid"
  then obtain tok where "AccessLocationInvalid = unable_to_parse tok"
    unfolding parse_csv_ip_ranges_to_ip_networks_def by (blast dest: parse_entries_error)
  then show False by (simp add: unable_to_parse_def)
qed

text \<open>What \<open>login\<close> does once a user is selected and the transport check has passed.\<close>

lemma login_after_transport:
  assumes "select_user chk pw (login_query w tid uname) None = Some u"
    and "tor \<or> https_flag t (role u)"
    and "tenant_cache w tid = Some t"
    and "ip_filter_authenticated_enable t"
  shows "login chk pa pn now token w tid uname pw tor ip =
     (case check_location pa pn t ip of
        Inl e \<Rightarrow> (Inl e, w)
      | Inr _ \<Rightarrow>
          (Inr \<lparr>sess_id = token, sess_tid = tid, sess_user_id = u_id u, user_role = role u,
                pcn = password_change_needed u\<rparr>,
           snd (Sessions_new token tid (u_id u) (role u) (password_change_needed u)
                  (w\<lparr>users := map (\<lambda>r. if u_id r = u_id u then r\<lparr>last_login := now\<rparr> else r)
                                   (users w)\<rparr>))))"
  using assms
  by (auto simp: login_def Sessions_new_def Let_def split: sum.splits)

lemma ipv4_int_127_0_0_1: "ipv4_int ''127.0.0.1'' = Some 2130706433"
  by (simp add: ipv4_int_def ipv4_octet_def is_digit_def read_nat_def digit_val_def)

lemma demo_networks:
  "parse_csv_ip_ranges_to_ip_networks ipv4_address ipv4_network (ip_filter_authenticated demo_tenant)
     = Inr [IPv4Network 167772161 32, IPv4Network 3232235776 24]"
  by (simp add: demo_tenant_def parse_csv_ip_ranges_to_ip_networks_def ipv4_address_def
      ipv4_int_10_0_0_1 ipv4_network_10_0_0_1 ipv4_network_192_168_1_0 show_nat_32)

lemma demo_select_alice:
  "select_user salted_check ''pw1'' (login_query demo_world 1 ''alice'') None = Some demo_alice"
  by (simp add: demo_login_query_alice) (simp add: demo_alice_def salted_check_def salted_def)

lemma demo_select_bob:
  "select_user salted_check ''pw2'' (login_query demo_world 1 ''bob'') None = Some demo_bob"
  by (simp add: demo_login_query_bob) (simp add: demo_bob_def salted_check_def salted_def)

text \<open>
  C4, as the code has it. For a staff login with verifying credentials that has passed
  the transport check (the client arrived over the anonymity network or the flag
  \<open>https_<role>\<close> is true), on a tenant with IP-allowlist enforcement enabled and with a
  client address that parses: a loopback client never fails with AccessLocationInvalid,
  whatever the configured list is, and logs in whenever the list parses, whatever
  networks it holds; a client that is not loopback and is inside none of the configured
  networks fails with AccessLocationInvalid and nothing changes.
\<close>

theorem login_location_check:
  assumes "select_user chk pw (login_query w tid uname) None = Some u"
    and "tor \<or> https_flag t (role u)"
    and "tenant_cache w tid = Some t"
    and "ip_filter_authenticated_enable t"
    and "pa ip = Some a"
  shows "(is_loopback a \<longrightarrow>
            fst (login chk pa pn now token w tid uname pw tor ip) \<noteq> Inl AccessLocationInvalid) \<and>
         (is_loopback a \<and>
          parse_csv_ip_ranges_to_ip_networks pa pn (ip_filter_authenticated t) = Inr nets \<longrightarrow>
            fst (login chk pa pn now token w tid uname pw tor ip)
              = Inr \<lparr>sess_id = token, sess_tid = tid, sess_user_id = u_id u, user_role = role u,
                     pcn = password_change_needed u\<rparr>) \<and>
         (\<not> is_loopback a \<and>
          parse_csv_ip_ranges_to_ip_networks pa pn (ip_filter_authenticated t) = Inr nets \<and>
          \<not> list_ex (in_network a) nets \<longrightarrow>
            login chk pa pn now token w tid uname pw tor ip = (Inl AccessLocationInvalid, w))"
proof (intro conjI impI)
  note run = login_after_transport [OF assms(1-4), where pa = pa and pn = pn and now = now
      and token = token and ip = ip]
  {
    assume lb: "is_loopback a"
    have "check_location pa pn t ip \<noteq> Inl AccessLocationInvalid"
      using assms(5) lb parse_csv_not_location_error [of pa pn "ip_filter_authenticated t"]
      by (auto simp: check_location_eq split: sum.splits)
    then show "fst (login chk pa pn now token w tid uname pw tor ip) \<noteq> Inl AccessLocationInvalid"
      unfolding run by (auto split: sum.splits)
  }
  {
    assume "is_loopback a \<and>
      parse_csv_ip_ranges_to_ip_networks pa pn (ip_filter_authenticated t) = Inr nets"
    then have "check_location pa pn t ip = Inr ()"
      using assms(5) by (simp add: check_location_eq)
    then show "fst (login chk pa pn now token w tid uname pw tor ip)
        = Inr \<lparr>sess_id = token, sess_tid = tid, sess_user_id = u_id u, user_role = role u,
               pcn = password_change_needed u\<rparr>"
      unfolding run by simp
  }
  {
    assume "\<not> is_loopback a \<and>
      parse_csv_ip_ranges_to_ip_networks pa pn (ip_filter_authenticated t) = Inr nets \<and>
      \<not> list_ex (in_network a) nets"
    then have "check_location pa pn t ip = Inl AccessLocationInvalid"
      using assms(5) by (simp add: check_location_eq)
    then show "login chk pa pn now token w tid uname pw tor ip = (Inl AccessLocationInvalid, w)"
      unfolding run by simp
  }
qed

theorem login_location_check_witness:
  "fst (login salted_check ipv4_address ipv4_network 7 ''tok'' demo_world 1 ''alice'' ''pw1'' False
          ''127.0.0.1'')
     = Inr \<lparr>sess_id = ''tok'', sess_tid = 1, sess_user_id = ''u1'', user_role = Admin, pcn = False\<rparr> \<and>
   login salted_check ipv4_address ipv4_network 7 ''tok'' demo_world 1 ''alice'' ''pw1'' False
     ''8.8.8.8''
     = (Inl AccessLocationInvalid, demo_world)"
proof -
  have t: "False \<or> https_flag demo_tenant (role demo_alice)"
    and e: "ip_filter_authenticated_enable demo_tenant"
    by (simp_all add: demo_tenant_def demo_alice_def)
  have a1: "ipv4_address ''127.0.0.1'' = Some (IPv4Address 2130706433)"
    and a2: "ipv4_address ''8.8.8.8'' = Some (IPv4Address 134744072)"
    by (simp_all add: ipv4_address_def ipv4_int_127_0_0_1 ipv4_int_8_8_8_8)
  have n: "\<not> list_ex (in_network (IPv4Address 134744072))
      [IPv4Network 167772161 32, IPv4Network 3232235776 24]"
    by (simp add: mask_numeral)
  have u: "u_id demo_alice = ''u1''" "role demo_alice = Admin"
      "password_change_needed demo_alice = False"
    by (simp_all add: demo_alice_def)
  show ?thesis
    using login_location_check [where chk = salted_check and pa = ipv4_address
        and pn = ipv4_network and now = 7 and token = "''tok''" and w = demo_world and tid = 1
        and uname = "''alice''" and pw = "''pw1''" and tor = False and ip = "''127.0.0.1''"
        and u = demo_alice and t = demo_tenant and a = "IPv4Address 2130706433"
        and nets = "[IPv4Network 167772161 32, IPv4Network 3232235776 24]",
        OF demo_select_alice t demo_tenant_cache e a1]
      login_location_check [where chk = salted_check and pa = ipv4_address
        and pn = ipv4_network and now = 7 and token = "''tok''" and w = demo_world and tid = 1
        and uname = "''alice''" and pw = "''pw1''" and tor = False and ip = "''8.8.8.8''"
        and u = demo_alice and t = demo_tenant and a = "IPv4Address 134744072"
        and nets = "[IPv4Network 167772161 32, IPv4Network 3232235776 24]",
        OF demo_select_alice t demo_tenant_cache e a2]
      demo_networks n u
    by simp
qed

text \<open>
  The claim as stated does not hold: the transport check comes before the location
  check. The receiver \<open>bob\<close> gives his password from \<open>8.8.8.8\<close>, outside both configured
  networks and not loopback, on a tenant with the allowlist enabled, without the
  anonymity network; the role is not reachable over the web, and the attempt fails with
  TorNetworkRequired, not with AccessLocationInvalid.
\<close>

theorem login_location_check_counterexample:
  "select_user salted_check ''pw2'' (login_query demo_world 1 ''bob'') None = Some demo_bob \<and>
   tenant_cache demo_world 1 = Some demo_tenant \<and>
   ip_filter_authenticated_enable demo_tenant \<and>
   parse_csv_ip_ranges_to_ip_networks ipv4_address ipv4_network (ip_filter_authenticated demo_tenant)
     = Inr [IPv4Network 167772161 32, IPv4Network 3232235776 24] \<and>
   ipv4_address ''8.8.8.8'' = Some (IPv4Address 134744072) \<and>
   \<not> is_loopback (IPv4Address 134744072) \<and>
   \<not> in_network (IPv4Address 134744072) (IPv4Network 167772161 32) \<and>
   \<not> in_network (IPv4Address 134744072) (IPv4Network 3232235776 24) \<and>
   login salted_check ipv4_address ipv4_network 7 ''tok'' demo_world 1 ''bob'' ''pw2'' False ''8.8.8.8''
     = (Inl TorNetworkRequired, demo_world) \<and>
   fst (login salted_check ipv4_address ipv4_network 7 ''tok'' demo_world 1 ''bob'' ''pw2'' False
          ''8.8.8.8'') \<noteq> Inl AccessLocationInvalid"
proof -
  have e: "ip_filter_authenticated_enable demo_tenant" "\<not> https_flag demo_tenant (role demo_bob)"
    by (simp_all add: demo_tenant_def demo_bob_def)
  have a: "ipv4_address ''8.8.8.8'' = Some (IPv4Address 134744072)"
    by (simp add: ipv4_address_def ipv4_int_8_8_8_8)
  have n: "\<not> is_loopback (IPv4Address 134744072)"
    "\<not> in_network (IPv4Address 134744072) (IPv4Network 167772161 32)"
    "\<not> in_network (IPv4Address 134744072) (IPv4Network 3232235776 24)"
    by (simp_all add: mask_numeral)
  have l: "login salted_check ipv4_address ipv4_network 7 ''tok'' demo_world 1 ''bob'' ''pw2'' False
      ''8.8.8.8'' = (Inl TorNetworkRequired, demo_world)"
    using demo_select_bob demo_tenant_cache e(2) by (simp add: login_def)
  from demo_select_bob demo_tenant_cache e(1) demo_networks a n l show ?thesis
    by simp
qed

text \<open>
  C10. \<open>check_tenant_auth_switch\<close> never returns False: for every state, user and tenant
  it returns True or raises, and it raises NoResultFound when the user has no membership
  row for the tenant, which the handler lets through. The branch of
  \<open>TenantAuthSwitchHandler.get\<close> for a false check binds no \<open>session\<close>: on a tenant of
  the cache it ends in UnboundLocalError, not in a structured authorization error.
\<close>

theorem check_tenant_auth_switch_never_false:
  "check_tenant_auth_switch w current_user tid \<noteq> Inr False \<and>
   (check_tenant_auth_switch w current_user tid = Inr True \<or>
    check_tenant_auth_switch w current_user tid = Inl NoResultFound \<or>
    check_tenant_auth_switch w current_user tid = Inl MultipleResultsFound) \<and>
   (\<not> list_ex (\<lambda>ut. user_id ut = sess_user_id current_user \<and> tenant_id ut = tid) (user_tenants w) \<longrightarrow>
      check_tenant_auth_switch w current_user tid = Inl NoResultFound \<and>
      TenantAuthSwitchHandler_get token w current_user tid = (Inl NoResultFound, w)) \<and>
   (tenant_cache w tid = Some t \<longrightarrow>
      tenant_auth_switch_response token w current_user tid False = (Inl UnboundLocalError, w))"
proof (intro conjI impI)
  let ?rows = "filter (\<lambda>ut. user_id ut = sess_user_id current_user \<and> tenant_id ut = tid)
                 (user_tenants w)"
  have cases: "query_one ?rows = Inl NoResultFound \<or> query_one ?rows = Inl MultipleResultsFound \<or>
      (\<exists>ut. query_one ?rows = Inr ut)"
    by (cases ?rows rule: query_one.cases) simp_all
  from cases show "check_tenant_auth_switch w current_user tid \<noteq> Inr False"
    by (auto simp: check_tenant_auth_switch_def)
  from cases show "check_tenant_auth_switch w current_user tid = Inr True \<or>
      check_tenant_auth_switch w current_user tid = Inl NoResultFound \<or>
      check_tenant_auth_switch w current_user tid = Inl MultipleResultsFound"
    by (auto simp: check_tenant_auth_switch_def)
  {
    assume "\<not> list_ex (\<lambda>ut. user_id ut = sess_user_id current_user \<and> tenant_id ut = tid)
        (user_tenants w)"
    then have "?rows = []"
      by (auto simp: list_ex_iff filter_empty_conv)
    then show none: "check_tenant_auth_switch w current_user tid = Inl NoResultFound"
      by (simp add: check_tenant_auth_switch_def)
    then show "TenantAuthSwitchHandler_get token w current_user tid = (Inl NoResultFound, w)"
      by (simp add: TenantAuthSwitchHandler_get_def)
  }
  {
    assume "tenant_cache w tid = Some t"
    then show "tenant_auth_switch_response token w current_user tid False
        = (Inl UnboundLocalError, w)"
      by (simp add: tenant_auth_switch_response_def)
  }
qed

theorem check_tenant_auth_switch_never_false_witness:
  "TenantAuthSwitchHandler_get ''tok'' demo_world
     \<lparr>sess_id = ''old'', sess_tid = 1, sess_user_id = ''u1'', user_role = Admin, pcn = False\<rparr> 2
     = (Inl NoResultFound, demo_world) \<and>
   tenant_auth_switch_response ''tok'' demo_world
     \<lparr>sess_id = ''old'', sess_tid = 1, sess_user_id = ''u1'', user_role = Admin, pcn = False\<rparr> 1 False
     = (Inl UnboundLocalError, demo_world)"
proof -
  have m: "user_tenants demo_world
      = [\<lparr>user_id = ''u1'', tenant_id = 1\<rparr>, \<lparr>user_id = ''u2'', tenant_id = 1\<rparr>]"
    by (simp add: demo_world_def)
  show ?thesis
    using check_tenant_auth_switch_never_false [of demo_world
        "\<lparr>sess_id = ''old'', sess_tid = 1, sess_user_id = ''u1'', user_role = Admin, pcn = False\<rparr>"
        2 "''tok''" demo_tenant]
      check_tenant_auth_switch_never_false [of demo_world
        "\<lparr>sess_id = ''old'', sess_tid = 1, sess_user_id = ''u1'', user_role = Admin, pcn = False\<rparr>"
        1 "''tok''" demo_tenant]
      demo_tenant_cache
    by (simp add: m)
qed

end
